theory Spec2Isabelle
  imports Main
begin

section \<open>The city-defence simulation of \<^verbatim>\<open>threads.c\<close>\<close>

text \<open>
  The program is one C file. Its \<^verbatim>\<open>int\<close> values are modelled as mathematical
  integers where they are widths, rows, columns and counts, which stay far inside the
  32-bit range. Two places work on values that a configuration file can push to the end
  of that range, and there the model keeps the range: \<^verbatim>\<open>strInt\<close>, whose overflow guard is
  kept as it is written, and the geometry test of \<^verbatim>\<open>main\<close>, whose subtractions are taken
  in 32 bits. A signed overflow is undefined in C; \<open>c_sub\<close> gives the two's complement
  result, which is what the machine subtraction leaves. C division truncates towards
  zero; \<open>c_div\<close> writes that rule out.
\<close>

subsection \<open>C arithmetic\<close>

definition c_div :: "int \<Rightarrow> int \<Rightarrow> int" where
  "c_div a b = sgn a * sgn b * (\<bar>a\<bar> div \<bar>b\<bar>)"

definition INT_MAX :: int where
  "INT_MAX = 2147483647"

definition int32 :: "int \<Rightarrow> int" where
  "int32 v = (v + 2147483648) mod 4294967296 - 2147483648"

definition c_sub :: "int \<Rightarrow> int \<Rightarrow> int" where
  "c_sub a b = int32 (a - b)"

subsection \<open>The attacker's batch size (\<^verbatim>\<open>startAtk\<close>, line 472)\<close>

text \<open>
  \<^verbatim>\<open>int packetSize = (width > 32) ? 8: ((width / 4 == 0) ? width: width / 4);\<close>
\<close>

definition packetSize :: "int \<Rightarrow> int" where
  "packetSize width =
     (if width > 32 then 8 else (if c_div width 4 = 0 then width else c_div width 4))"

subsection \<open>Parsing integers (\<^verbatim>\<open>strInt\<close>, lines 116-129)\<close>

text \<open>
  \<^verbatim>\<open>strInt\<close> returns 0 (here \<open>None\<close>) when the conversion fails and 1 after storing the
  value through \<^verbatim>\<open>val\<close> (here \<open>Some\<close> of the value). The argument is the content of the
  NUL-terminated string. The loop runs over the characters with their index \<open>i\<close>; the
  accumulator \<^verbatim>\<open>sum\<close> is called \<open>sm\<close>.
\<close>

fun strInt_loop :: "nat \<Rightarrow> string \<Rightarrow> int \<Rightarrow> int option" where
  "strInt_loop i [] sm = Some sm"
| "strInt_loop i (ch # rest) sm =
     (if i = 0 \<and> ch = CHR ''-'' then strInt_loop (Suc i) rest sm
      else
        let digit = of_char ch - of_char (CHR ''0'') in
        if digit < 0 \<or> digit > 9 then None
        else if sm \<noteq> 0 \<and> c_div (INT_MAX - digit) sm < 10 then None
        else strInt_loop (Suc i) rest (sm * 10 + digit))"

definition strInt :: "string \<Rightarrow> int option" where
  "strInt str =
     (case strInt_loop 0 str 0 of
        None \<Rightarrow> None
      | Some sm \<Rightarrow>
          if str = [] \<or> str = ''-'' then None
          else Some (if hd str = CHR ''-'' then - sm else sm))"

text \<open>
  What the specification calls a numeric budget, in its own words: an optional minus sign
  followed by one or more decimal digits, denoting the integer it spells.
\<close>

definition is_digit :: "char \<Rightarrow> bool" where
  "is_digit ch = (48 \<le> (of_char ch :: int) \<and> (of_char ch :: int) \<le> 57)"

definition digits_value :: "string \<Rightarrow> int" where
  "digits_value ds = foldl (\<lambda>v ch. 10 * v + (of_char ch - 48)) 0 ds"

text \<open>The value of a digit string read after the value \<open>acc\<close>.\<close>

definition dv :: "int \<Rightarrow> string \<Rightarrow> int" where
  "dv acc ds = foldl (\<lambda>v ch. 10 * v + (of_char ch - 48)) acc ds"

definition numeric :: "string \<Rightarrow> bool" where
  "numeric s =
     (case s of
        [] \<Rightarrow> False
      | ch # rest \<Rightarrow>
          if ch = CHR ''-'' then rest \<noteq> [] \<and> list_all is_digit rest
          else list_all is_digit s)"

definition denotes :: "string \<Rightarrow> int" where
  "denotes s = (case s of
        [] \<Rightarrow> 0
      | ch # rest \<Rightarrow> if ch = CHR ''-'' then - digits_value rest else digits_value s)"

subsection \<open>The game's data (\<^verbatim>\<open>struct Game\<close>, \<^verbatim>\<open>Defender\<close>, \<^verbatim>\<open>Attacker\<close>, \<^verbatim>\<open>Missile\<close>)\<close>

text \<open>
  The structs become records. A \<^verbatim>\<open>name\<close> pointer is \<open>None\<close> while it is \<^verbatim>\<open>NULL\<close>. The
  \<^verbatim>\<open>gameOver\<close> pointers of the defender and the attacker both point at the flag of the
  game, so the flag is kept once, in \<open>Game\<close>, and the thread functions below take and return
  it. The layout buffer is the list of its first \<^verbatim>\<open>size\<close> entries; \<^verbatim>\<open>cap\<close> only steers
  \<^verbatim>\<open>realloc\<close> and is left out. The fields of a missile are called \<open>m_x\<close>, \<open>m_y\<close>, \<open>m_c\<close>.
\<close>

record Defender =
  d_name :: "string option"
  shieldY :: int
  shieldX :: int

record Attacker =
  a_name :: "string option"
  totalMissiles :: int

record Game =
  defender :: Defender
  attacker :: Attacker
  layout :: "int list"
  tallest :: int
  gameOver :: bool

record Missile =
  m_x :: int
  m_y :: int
  m_c :: char

definition game_size :: "Game \<Rightarrow> int" where
  "game_size g = int (length (layout g))"

subsection \<open>Reading the configuration (\<^verbatim>\<open>createGame\<close>, lines 137-240)\<close>

text \<open>
  A fatal error writes one message to the error stream and ends the process with
  \<^verbatim>\<open>exit(EXIT_FAILURE)\<close>: \<open>Fatal\<close> carries the text \<^verbatim>\<open>fprintf\<close> writes, \<open>Fatal_perror\<close> the
  argument of \<^verbatim>\<open>perror\<close>.
\<close>

datatype fatal = Fatal string | Fatal_perror string

text \<open>
  Lines 189-199: the budget line. \<open>Inr\<close> carries the value left in
  \<^verbatim>\<open>attacker->totalMissiles\<close>.
\<close>

definition budget_line :: "string \<Rightarrow> fatal + int" where
  "budget_line str =
     (case strInt str of
        None \<Rightarrow> Inl (Fatal ''Error: missing missile specification.\<newline>'')
      | Some v \<Rightarrow>
          if v < 0 then Inl (Fatal ''Error: missile specification < 0.\<newline>'')
          else if v = 0 then Inr (- 1)
          else Inr v)"

text \<open>
  \<^verbatim>\<open>strtok(str, " ")\<close> and its repeated calls yield the maximal runs of characters other
  than a space, left to right; \<open>cur\<close> is the token being collected.
\<close>

fun strtok_all :: "string \<Rightarrow> string \<Rightarrow> string list" where
  "strtok_all cur [] = (if cur = [] then [] else [cur])"
| "strtok_all cur (ch # rest) =
     (if ch = CHR '' '' then
        (if cur = [] then strtok_all [] rest else cur # strtok_all [] rest)
      else strtok_all (cur @ [ch]) rest)"

text \<open>Lines 213-218: one token of a layout line.\<close>

definition layout_token :: "Game \<Rightarrow> string \<Rightarrow> Game" where
  "layout_token g token =
     (case strInt token of
        None \<Rightarrow> g
      | Some v \<Rightarrow>
          g\<lparr>layout := layout g @ [v],
            tallest := (if v > tallest g then v else tallest g)\<rparr>)"

text \<open>
  The \<^verbatim>\<open>getline\<close> loop. The file is the list of the lines \<^verbatim>\<open>getline\<close> returns, each with
  its line terminator; the loop ends at the first read that returns no character. The
  program handles a line as a C string, which ends at the first NUL byte of the buffer:
  \<open>c_string\<close>. Line 185 cuts the last character of that string (of a line that begins with a
  NUL byte the string is empty and stays empty: the write of line 185 falls before the
  buffer). Names are cut to 80 characters by \<^verbatim>\<open>strndup\<close>.
\<close>

definition c_string :: "string \<Rightarrow> string" where
  "c_string raw = takeWhile (\<lambda>ch. ch \<noteq> CHR 0x00) raw"

fun createGame_loop :: "nat \<Rightarrow> Game \<Rightarrow> string list \<Rightarrow> fatal + (nat \<times> Game)" where
  "createGame_loop line g [] = Inr (line, g)"
| "createGame_loop line g (raw # rest) =
     (if raw = [] then Inr (line, g)
      else if hd raw = CHR ''#'' then createGame_loop line g rest
      else
        let str = butlast (c_string raw) in
        if line = 0 then
          createGame_loop (Suc line)
            (g\<lparr>defender := (defender g)\<lparr>d_name := Some (take 80 str)\<rparr>\<rparr>) rest
        else if line = 1 then
          createGame_loop (Suc line)
            (g\<lparr>attacker := (attacker g)\<lparr>a_name := Some (take 80 str)\<rparr>\<rparr>) rest
        else if line = 2 then
          (case budget_line str of
             Inl e \<Rightarrow> Inl e
           | Inr v \<Rightarrow>
               createGame_loop (Suc line)
                 (g\<lparr>attacker := (attacker g)\<lparr>totalMissiles := v\<rparr>\<rparr>) rest)
        else
          createGame_loop (Suc line) (foldl layout_token g (strtok_all [] str)) rest)"

text \<open>
  \<open>d0\<close> and \<open>a0\<close> are the contents of the two structs as \<^verbatim>\<open>malloc\<close> hands them out, and
  \<open>file\<close> is \<open>None\<close> when \<^verbatim>\<open>fopen\<close> fails. Allocation is taken to succeed, and \<^verbatim>\<open>getline\<close> to
  fail only at the end of the file.
\<close>

definition createGame :: "Defender \<Rightarrow> Attacker \<Rightarrow> string \<Rightarrow> string list option \<Rightarrow> fatal + Game" where
  "createGame d0 a0 filename file =
     (case file of
        None \<Rightarrow> Inl (Fatal_perror filename)
      | Some lines \<Rightarrow>
          (case createGame_loop 0
                  \<lparr>defender = d0\<lparr>d_name := None\<rparr>, attacker = a0\<lparr>a_name := None\<rparr>,
                   layout = [], tallest = 0, gameOver = False\<rparr> lines of
             Inl e \<Rightarrow> Inl e
           | Inr (line, g) \<Rightarrow>
               if line < 4 then
                 Inl (Fatal
                   (if line = 0 then ''Error: missing defender name.\<newline>''
                    else if line = 1 then ''Error: missing attacker name.\<newline>''
                    else if line = 2 then ''Error: missing missile specification.\<newline>''
                    else ''Error: missing city layout.\<newline>''))
               else Inr g))"

subsection \<open>The orchestrator (\<^verbatim>\<open>main\<close>, lines 538-587, and \<^verbatim>\<open>initDisplay\<close>, lines 286-288)\<close>

text \<open>
  Of \<^verbatim>\<open>initDisplay\<close> the model keeps the two assignments that place the shield; the drawing
  of the skyline only writes to the screen.
\<close>

definition initDisplay_shield :: "int \<Rightarrow> int \<Rightarrow> Game \<Rightarrow> Game" where
  "initDisplay_shield height width g =
     g\<lparr>defender := (defender g)
          \<lparr>shieldY := height - (if tallest g < 2 then 2 else tallest g) - 2,
           shieldX := c_div width 2 - 2\<rparr>\<rparr>"

text \<open>
  What the process does is recorded as the list of its events, in order. \<open>Stderr_height\<close>
  is the geometry message, which prints the height.
\<close>

datatype event =
    Stderr string
  | Perror string
  | Stderr_height int
  | Initscr | Cbreak | Noecho | Keypad | Endwin | Srand | InitDisplay

datatype exit_status = EXIT_SUCCESS | EXIT_FAILURE

datatype outcome =
    Exited exit_status "event list"
  | Simulating "event list" Game

definition fatal_event :: "fatal \<Rightarrow> event" where
  "fatal_event e = (case e of Fatal msg \<Rightarrow> Stderr msg | Fatal_perror a \<Rightarrow> Perror a)"

text \<open>
  \<^verbatim>\<open>main\<close> up to the start of the two controller threads. \<open>argv\<close> is the argument vector
  with the program name, \<open>fs\<close> the file system, \<open>height\<close> and \<open>width\<close> what \<^verbatim>\<open>getmaxyx\<close>
  reports. The test of line 551 subtracts from left to right in \<^verbatim>\<open>int\<close>.
\<close>

definition main :: "string list \<Rightarrow> (string \<Rightarrow> string list option) \<Rightarrow> Defender \<Rightarrow> Attacker
    \<Rightarrow> int \<Rightarrow> int \<Rightarrow> outcome" where
  "main argv fs d0 a0 height width =
     (if length argv \<noteq> 2 then
        Exited EXIT_FAILURE [Stderr ''Usage: threads config-file\<newline>'']
      else
        (case createGame d0 a0 (argv ! 1) (fs (argv ! 1)) of
           Inl e \<Rightarrow> Exited EXIT_FAILURE [fatal_event e]
         | Inr game \<Rightarrow>
             if c_sub (c_sub (c_sub
                  (c_sub height (if tallest game < 2 then 2 else tallest game)) 2) 1) 2 < 0 then
               Exited EXIT_FAILURE [Initscr, Cbreak, Noecho, Keypad, Endwin, Stderr_height height]
             else
               Simulating [Initscr, Cbreak, Noecho, Keypad, Srand, InitDisplay]
                 (initDisplay_shield height width game)))"

subsection \<open>The screen\<close>

text \<open>
  The curses window is the list of its rows, each the list of its characters. The three
  curses calls of the simulation follow the library's documentation: each of them fails,
  changing nothing, when the position is outside the window (\<^verbatim>\<open>mvinch\<close> then returns
  \<^verbatim>\<open>ERR\<close>, which is \<open>-1\<close> and becomes the character 255 in a \<^verbatim>\<open>char\<close>); \<^verbatim>\<open>mvdelch\<close> removes
  the character and moves the rest of the row one place left, leaving a blank at the row's
  end; \<^verbatim>\<open>mvinsch\<close> puts a character in, moves the rest of the row one place right and drops
  the row's last character. No call of the program sets an attribute.
\<close>

type_synonym screen = "char list list"

definition in_window :: "screen \<Rightarrow> int \<Rightarrow> int \<Rightarrow> bool" where
  "in_window s y x = (0 \<le> y \<and> y < int (length s) \<and> 0 \<le> x \<and> x < int (length (s ! nat y)))"

definition mvinch :: "screen \<Rightarrow> int \<Rightarrow> int \<Rightarrow> char" where
  "mvinch s y x = (if in_window s y x then s ! nat y ! nat x else CHR 0xFF)"

definition mvdelch :: "screen \<Rightarrow> int \<Rightarrow> int \<Rightarrow> screen" where
  "mvdelch s y x =
     (if in_window s y x then
        s[nat y := take (nat x) (s ! nat y) @ drop (Suc (nat x)) (s ! nat y) @ [CHR '' '']]
      else s)"

definition mvinsch :: "screen \<Rightarrow> int \<Rightarrow> int \<Rightarrow> char \<Rightarrow> screen" where
  "mvinsch s y x ch =
     (if in_window s y x then
        s[nat y := take (nat x) (s ! nat y) @ [ch] @ drop (nat x) (butlast (s ! nat y))]
      else s)"

subsection \<open>A projectile (\<^verbatim>\<open>launchMissile\<close>, lines 412-462)\<close>

text \<open>
  What a missile thread works on: the game and the screen, which it shares with every
  other thread, and its own missile and local \<^verbatim>\<open>prevc\<close>.
\<close>

record Flight =
  game :: Game
  scr :: screen
  missile :: Missile
  prevc :: char

text \<open>Lines 414-419: the missile appears on the screen.\<close>

definition launchMissile_enter :: "Flight \<Rightarrow> Flight" where
  "launchMissile_enter f =
     (let m = missile f;
          p = (if mvinch (scr f) (m_y m) (m_x m) = CHR ''|'' then CHR '' ''
               else mvinch (scr f) (m_y m) (m_x m))
      in f\<lparr>scr := mvinsch (mvdelch (scr f) (m_y m) (m_x m)) (m_y m) (m_x m) (m_c m),
           prevc := p\<rparr>)"

text \<open>
  Lines 422-458: one pass through the body of the loop, between taking and releasing the
  mutex. The column \<open>x\<close> of a missile is never negative (it is \<^verbatim>\<open>rand() % width\<close>).
\<close>

definition missile_tick :: "int \<Rightarrow> Flight \<Rightarrow> Flight" where
  "missile_tick height f =
     (let g = game f;
          x = m_x (missile f);
          scr1 = (if m_y (missile f) < height then
                    mvinsch (mvdelch (scr f) (m_y (missile f)) x) (m_y (missile f)) x (prevc f)
                  else scr f);
          y = m_y (missile f) + 1;
          c = (if y \<ge> height then CHR '' '' else mvinch scr1 y x);
          (mc, g1, p) =
            (if c = CHR ''#'' \<or> (c = CHR ''*'' \<and> y < height - tallest g) then
               (CHR ''*'', g, prevc f)
             else if y = height - (if x > game_size g - 1 then 2 else layout g ! nat x) + 1 then
               (CHR ''*'',
                (if x < game_size g \<and> layout g ! nat x \<noteq> 2 then
                   g\<lparr>layout := (layout g)[nat x := layout g ! nat x - 1]\<rparr>
                 else g),
                prevc f)
             else if c = CHR ''|'' \<or> c = CHR ''_'' \<or> c = CHR ''?'' \<or> c = CHR ''*'' then
               (m_c (missile f), g, CHR '' '')
             else (m_c (missile f), g, c));
          scr2 = (if y < height then mvinsch (mvdelch scr1 y x) y x mc else scr1);
          scr3 = (if mc = CHR ''*'' \<and> y \<le> height then
                    mvinsch (mvdelch scr2 (y - 1) x) (y - 1) x (CHR ''?'')
                  else scr2)
      in \<lparr>game = g1, scr = scr3, missile = (missile f)\<lparr>m_y := y, m_c := mc\<rparr>, prevc = p\<rparr>)"

text \<open>
  While the missile sleeps the other threads run: \<open>env n\<close> is what they do to the game and
  the screen before the missile's pass number \<open>n\<close>. The missile and \<^verbatim>\<open>prevc\<close> belong to the
  thread alone.
\<close>

definition interfere :: "(Game \<times> screen \<Rightarrow> Game \<times> screen) \<Rightarrow> Flight \<Rightarrow> Flight" where
  "interfere e f = f\<lparr>game := fst (e (game f, scr f)), scr := snd (e (game f, scr f))\<rparr>"

text \<open>
  Lines 420-460: the loop. The result carries the number of passes made; \<open>n\<close> is the
  number made so far.
\<close>

function launchMissile_loop ::
  "(nat \<Rightarrow> Game \<times> screen \<Rightarrow> Game \<times> screen) \<Rightarrow> int \<Rightarrow> nat \<Rightarrow> Flight \<Rightarrow> nat \<times> Flight" where
  "launchMissile_loop env height n f =
     (if m_c (missile f) \<noteq> CHR ''*'' then
        (if m_y (missile (missile_tick height (interfere (env n) f))) > height then
           (Suc n, missile_tick height (interfere (env n) f))
         else
           launchMissile_loop env height (Suc n) (missile_tick height (interfere (env n) f)))
      else (n, f))"
  by pat_completeness auto
termination
  by (relation "measure (\<lambda>(env, height, n, f). nat (height + 1 - m_y (missile f)))")
    (auto simp: missile_tick_def interfere_def Let_def split: prod.splits if_splits)

definition launchMissile ::
  "(nat \<Rightarrow> Game \<times> screen \<Rightarrow> Game \<times> screen) \<Rightarrow> int \<Rightarrow> Flight \<Rightarrow> nat \<times> Flight" where
  "launchMissile env height f = launchMissile_loop env height 0 (launchMissile_enter f)"

subsection \<open>The defender (\<^verbatim>\<open>startDef\<close>, lines 344-384)\<close>

text \<open>
  \<^verbatim>\<open>getch\<close> blocks until a key arrives. The loop compares the key with \<^verbatim>\<open>'q'\<close>,
  \<^verbatim>\<open>KEY_LEFT\<close> and \<^verbatim>\<open>KEY_RIGHT\<close>, three different codes; \<open>key\<close> is the outcome of that
  comparison.
\<close>

datatype key = Key_q | KEY_LEFT | KEY_RIGHT | Key_other

text \<open>
  The state of the defender thread: the shared flag, its local \<^verbatim>\<open>b\<close>, and its struct. The
  redrawing of the shield only writes to the screen and is left out.
\<close>

record Def_thread =
  def_gameOver :: bool
  def_b :: bool
  def_d :: Defender

text \<open>Lines 350-383: what the body of the loop does with the key it has read.\<close>

definition startDef_key :: "int \<Rightarrow> key \<Rightarrow> Def_thread \<Rightarrow> Def_thread" where
  "startDef_key width k s =
     (case k of
        Key_q \<Rightarrow> s\<lparr>def_gameOver := True, def_b := False\<rparr>
      | KEY_LEFT \<Rightarrow>
          if shieldX (def_d s) > 0 then
            s\<lparr>def_d := (def_d s)\<lparr>shieldX := shieldX (def_d s) - 1\<rparr>\<rparr>
          else s
      | KEY_RIGHT \<Rightarrow>
          if shieldX (def_d s) < width - 5 then
            s\<lparr>def_d := (def_d s)\<lparr>shieldX := shieldX (def_d s) + 1\<rparr>\<rparr>
          else s
      | Key_other \<Rightarrow> s)"

text \<open>
  The loop runs over the keys that arrive. \<open>atk n\<close> says whether the attacker has set the
  flag by the time the defender tests its loop condition for the \<open>n\<close>-th time (counting
  from 0); \<open>n\<close> is also the number of keys read so far. The loop either returns, with the
  keys it has left unread, or it has read every key and blocks in \<^verbatim>\<open>getch\<close>.
\<close>

datatype def_result =
    Def_returned nat Def_thread "key list"
  | Def_blocked nat Def_thread

fun startDef_loop :: "(nat \<Rightarrow> bool) \<Rightarrow> int \<Rightarrow> nat \<Rightarrow> Def_thread \<Rightarrow> key list \<Rightarrow> def_result" where
  "startDef_loop atk width n s [] =
     (if \<not> (def_gameOver s \<or> atk n) \<or> def_b s then
        Def_blocked n (s\<lparr>def_gameOver := def_gameOver s \<or> atk n\<rparr>)
      else Def_returned n (s\<lparr>def_gameOver := def_gameOver s \<or> atk n\<rparr>) [])"
| "startDef_loop atk width n s (k # ks) =
     (if \<not> (def_gameOver s \<or> atk n) \<or> def_b s then
        startDef_loop atk width (Suc n)
          (startDef_key width k (s\<lparr>def_gameOver := def_gameOver s \<or> atk n\<rparr>)) ks
      else Def_returned n (s\<lparr>def_gameOver := def_gameOver s \<or> atk n\<rparr>) (k # ks))"

text \<open>
  \<^verbatim>\<open>startDef\<close> up to the end of its loop: \<open>flag\<close> is the shared flag when the thread starts,
  \<open>keys\<close> the keys typed after \<^verbatim>\<open>flushinp\<close>.
\<close>

definition startDef :: "(nat \<Rightarrow> bool) \<Rightarrow> int \<Rightarrow> Defender \<Rightarrow> bool \<Rightarrow> key list \<Rightarrow> def_result" where
  "startDef atk width d flag keys =
     startDef_loop atk width 0 \<lparr>def_gameOver = flag, def_b = True, def_d = d\<rparr> keys"

subsection \<open>The attacker (\<^verbatim>\<open>startAtk\<close>, lines 470-507)\<close>

definition c_mod :: "int \<Rightarrow> int \<Rightarrow> int" where
  "c_mod a b = a - b * c_div a b"

text \<open>
  The state of the attacker thread: the shared flag and its struct, and two counters the
  source does not keep: every missile for which a thread was created, in order, and the
  number of times the thread has read the shared flag. \<open>quit n\<close> says whether the defender
  has set the flag by the attacker's \<open>n\<close>-th reading of it (counting from 0); \<open>rnd k\<close> is
  the value \<^verbatim>\<open>rand()\<close> returns for the column of missile number \<open>k\<close>.
\<close>

record Atk_thread =
  atk_gameOver :: bool
  atk_a :: Attacker
  atk_missiles :: "Missile list"
  atk_reads :: nat

text \<open>
  Lines 487-503: the inner loop, which fills the slots of one batch. It returns \<open>i\<close>, the
  number of threads it has created, for the join that follows.
\<close>

function startAtk_batch ::
  "(nat \<Rightarrow> bool) \<Rightarrow> (nat \<Rightarrow> int) \<Rightarrow> int \<Rightarrow> int \<Rightarrow> int \<Rightarrow> Atk_thread \<Rightarrow> int \<times> Atk_thread" where
  "startAtk_batch quit rnd width psize i s =
     (if i < psize then
        (if atk_gameOver s \<or> quit (atk_reads s) then
           (i + 1,
            s\<lparr>atk_missiles := atk_missiles s @
                 [\<lparr>m_x = c_mod (rnd (length (atk_missiles s))) width, m_y = 2, m_c = CHR ''|''\<rparr>],
              atk_reads := Suc (atk_reads s),
              atk_gameOver := True\<rparr>)
         else if totalMissiles (atk_a s) > 0 then
           (if totalMissiles (atk_a s) - 1 = 0 then
              (i + 1,
               s\<lparr>atk_missiles := atk_missiles s @
                    [\<lparr>m_x = c_mod (rnd (length (atk_missiles s))) width, m_y = 2, m_c = CHR ''|''\<rparr>],
                 atk_reads := Suc (atk_reads s),
                 atk_a := (atk_a s)\<lparr>totalMissiles := totalMissiles (atk_a s) - 1\<rparr>,
                 atk_gameOver := True\<rparr>)
            else
              startAtk_batch quit rnd width psize (i + 1)
                (s\<lparr>atk_missiles := atk_missiles s @
                     [\<lparr>m_x = c_mod (rnd (length (atk_missiles s))) width, m_y = 2, m_c = CHR ''|''\<rparr>],
                   atk_reads := Suc (atk_reads s),
                   atk_a := (atk_a s)\<lparr>totalMissiles := totalMissiles (atk_a s) - 1\<rparr>\<rparr>))
         else
           startAtk_batch quit rnd width psize (i + 1)
             (s\<lparr>atk_missiles := atk_missiles s @
                  [\<lparr>m_x = c_mod (rnd (length (atk_missiles s))) width, m_y = 2, m_c = CHR ''|''\<rparr>],
                atk_reads := Suc (atk_reads s)\<rparr>))
      else (i, s))"
  by pat_completeness auto
termination
  by (relation "measure (\<lambda>(quit, rnd, width, psize, i, s). nat (psize - i))") auto

text \<open>
  Lines 485-507: the outer loop, one batch and its join per pass. It need not end, so it
  runs on fuel, one unit for each test of its condition; \<open>Atk_running\<close> is the state
  reached when the fuel is used up.
\<close>

datatype atk_result = Atk_returned Atk_thread | Atk_running Atk_thread

fun startAtk_loop ::
  "nat \<Rightarrow> (nat \<Rightarrow> bool) \<Rightarrow> (nat \<Rightarrow> int) \<Rightarrow> int \<Rightarrow> int \<Rightarrow> Atk_thread \<Rightarrow> atk_result" where
  "startAtk_loop 0 quit rnd width psize s = Atk_running s"
| "startAtk_loop (Suc fuel) quit rnd width psize s =
     (if \<not> (atk_gameOver s \<or> quit (atk_reads s)) then
        startAtk_loop fuel quit rnd width psize
          (snd (startAtk_batch quit rnd width psize 0 (s\<lparr>atk_reads := Suc (atk_reads s)\<rparr>)))
      else
        Atk_returned (s\<lparr>atk_gameOver := True, atk_reads := Suc (atk_reads s)\<rparr>))"

text \<open>
  \<^verbatim>\<open>startAtk\<close> up to the end of its loop. \<open>calloc_ok\<close> says whether the batch array could be
  allocated; \<open>flag\<close> is the shared flag when the thread starts.
\<close>

definition startAtk ::
  "nat \<Rightarrow> (nat \<Rightarrow> bool) \<Rightarrow> (nat \<Rightarrow> int) \<Rightarrow> bool \<Rightarrow> int \<Rightarrow> Attacker \<Rightarrow> bool \<Rightarrow> atk_result" where
  "startAtk fuel quit rnd calloc_ok width a flag =
     startAtk_loop fuel quit rnd width (packetSize width)
       \<lparr>atk_gameOver = (if calloc_ok then flag else True), atk_a = a,
        atk_missiles = [], atk_reads = 0\<rparr>"

subsection \<open>Reading results, and concrete inputs\<close>

definition def_thread :: "def_result \<Rightarrow> Def_thread" where
  "def_thread r = (case r of Def_returned n s ks \<Rightarrow> s | Def_blocked n s \<Rightarrow> s)"

definition atk_thread :: "atk_result \<Rightarrow> Atk_thread" where
  "atk_thread r = (case r of Atk_returned s \<Rightarrow> s | Atk_running s \<Rightarrow> s)"

text \<open>The other side never sets the flag; the other side has set it from the start.\<close>

definition never :: "nat \<Rightarrow> bool" where
  "never n = False"

definition from_start :: "nat \<Rightarrow> bool" where
  "from_start n = True"

text \<open>
  The scenario of the specification: layout \<open>3 3 3 2 2\<close>, budget 5. \<open>fresh_d\<close> and
  \<open>fresh_a\<close> stand for what \<^verbatim>\<open>malloc\<close> returns.
\<close>

definition fresh_d :: Defender where
  "fresh_d = \<lparr>d_name = None, shieldY = 0, shieldX = 0\<rparr>"

definition fresh_a :: Attacker where
  "fresh_a = \<lparr>a_name = None, totalMissiles = 0\<rparr>"

definition demo_file :: "string list" where
  "demo_file =
     [''# a scenario\<newline>'', ''Alice\<newline>'', ''Bob\<newline>'', ''5\<newline>'', ''3 3 3 2 2\<newline>'']"

definition demo_game :: Game where
  "demo_game =
     \<lparr>defender = \<lparr>d_name = Some ''Alice'', shieldY = 0, shieldX = 0\<rparr>,
      attacker = \<lparr>a_name = Some ''Bob'', totalMissiles = 5\<rparr>,
      layout = [3, 3, 3, 2, 2], tallest = 3, gameOver = False\<rparr>"

text \<open>
  Three more files: the budget \<open>-1\<close>, the budget \<open>-0\<close>, and the layout line \<open>1\<close> with
  the budget 0.
\<close>

definition neg_file :: "string list" where
  "neg_file = [''Alice\<newline>'', ''Bob\<newline>'', ''-1\<newline>'', ''3 3 3 2 2\<newline>'']"

definition minus_zero_file :: "string list" where
  "minus_zero_file = [''Alice\<newline>'', ''Bob\<newline>'', ''-0\<newline>'', ''3 3 3 2 2\<newline>'']"

definition low_file :: "string list" where
  "low_file = [''Alice\<newline>'', ''Bob\<newline>'', ''0\<newline>'', ''1\<newline>'']"

text \<open>
  A layout whose only column has the largest height \<^verbatim>\<open>strInt\<close> accepts, and the game
  \<^verbatim>\<open>createGame\<close> makes of it.
\<close>

definition tall_file :: "string list" where
  "tall_file = [''Alice\<newline>'', ''Bob\<newline>'', ''0\<newline>'', ''2147483647\<newline>'']"

definition tall_game :: Game where
  "tall_game =
     \<lparr>defender = \<lparr>d_name = Some ''Alice'', shieldY = 0, shieldX = 0\<rparr>,
      attacker = \<lparr>a_name = Some ''Bob'', totalMissiles = - 1\<rparr>,
      layout = [2147483647], tallest = 2147483647, gameOver = False\<rparr>"

definition demo_fs :: "string \<Rightarrow> string list option" where
  "demo_fs path =
     (if path = ''demo.cfg'' then Some demo_file
      else if path = ''neg.cfg'' then Some neg_file
      else if path = ''minus0.cfg'' then Some minus_zero_file
      else if path = ''low.cfg'' then Some low_file
      else if path = ''tall.cfg'' then Some tall_file
      else None)"

text \<open>An attacker with the unlimited budget.\<close>

definition endless :: Attacker where
  "endless = \<lparr>a_name = Some ''Bob'', totalMissiles = - 1\<rparr>"

text \<open>No other thread touches the game or the screen; \<^verbatim>\<open>rand()\<close> always returns 0.\<close>

definition quiet :: "nat \<Rightarrow> Game \<times> screen \<Rightarrow> Game \<times> screen" where
  "quiet n w = w"

definition rnd_zero :: "nat \<Rightarrow> int" where
  "rnd_zero k = 0"

text \<open>
  Screens of 50 columns are written row by row, each row filled up with blanks; row 0
  holds the instruction that \<^verbatim>\<open>main\<close> displays.
\<close>

definition pad :: "string \<Rightarrow> string" where
  "pad s = s @ replicate (50 - length s) (CHR '' '')"

definition instruction :: string where
  "instruction = ''Enter 'q' to quit at end of attack, or control-C''"

text \<open>A new missile in column \<open>x\<close>, in the world the flight \<open>f\<close> has left.\<close>

definition missile_at :: "int \<Rightarrow> Flight \<Rightarrow> Flight" where
  "missile_at x f = f\<lparr>missile := \<lparr>m_x = x, m_y = 2, m_c = CHR ''|''\<rparr>\<rparr>"

text \<open>
  A terminal of 9 rows and 50 columns and the layout \<open>2 4\<close>, as \<^verbatim>\<open>initDisplay\<close> draws it:
  the ground in row 7, the wall of column 1 in rows 6 and 7, the shield in row 3 from
  column 23. A first missile has been created in column 1.
\<close>

definition city_game :: Game where
  "city_game =
     \<lparr>defender = \<lparr>d_name = Some ''Alice'', shieldY = 3, shieldX = 23\<rparr>,
      attacker = \<lparr>a_name = Some ''Bob'', totalMissiles = - 1\<rparr>,
      layout = [2, 4], tallest = 4, gameOver = False\<rparr>"

definition city_start :: Flight where
  "city_start =
     \<lparr>game = city_game,
      scr = map pad
        [instruction,
         [],
         [],
         ''                       #####'',
         [],
         [],
         '' |'',
         ''_|'' @ replicate 48 (CHR ''_''),
         []],
      missile = \<lparr>m_x = 1, m_y = 2, m_c = CHR ''|''\<rparr>,
      prevc = CHR '' ''\<rparr>"

text \<open>
  The same field after that missile has hit column 1: the column is 3 high, the explosion
  marker of the hit stands in row 6, and a second missile in column 1 has come down to
  row 5.
\<close>

definition city_flight :: Flight where
  "city_flight =
     \<lparr>game = city_game\<lparr>layout := [2, 3]\<rparr>,
      scr = map pad
        [instruction,
         [],
         [],
         ''                       #####'',
         [],
         '' |'',
         '' *'',
         ''_|'' @ replicate 48 (CHR ''_''),
         []],
      missile = \<lparr>m_x = 1, m_y = 5, m_c = CHR ''|''\<rparr>,
      prevc = CHR '' ''\<rparr>"

text \<open>
  The field after a missile has hit the shield in column 25, which left its marker in the
  shield's row and a \<open>?\<close> above it, and a second missile has been created in that column.
\<close>

definition shield_flight :: Flight where
  "shield_flight =
     \<lparr>game = city_game,
      scr = map pad
        [instruction,
         [],
         ''                         |'',
         ''                       ##*##'',
         [],
         [],
         '' |'',
         ''_|'' @ replicate 48 (CHR ''_''),
         []],
      missile = \<lparr>m_x = 25, m_y = 2, m_c = CHR ''|''\<rparr>,
      prevc = CHR ''?''\<rparr>"

text \<open>
  A terminal of 7 rows and 50 columns and the layout line \<open>1\<close>: one column of height 1,
  its roof in row 6, the ground of the other columns in row 5, and a missile that has just
  been created in column 0.
\<close>

definition low_game :: Game where
  "low_game =
     \<lparr>defender = \<lparr>d_name = Some ''Alice'', shieldY = 3, shieldX = 23\<rparr>,
      attacker = \<lparr>a_name = Some ''Bob'', totalMissiles = - 1\<rparr>,
      layout = [1], tallest = 1, gameOver = False\<rparr>"

definition low_flight :: Flight where
  "low_flight =
     \<lparr>game = low_game,
      scr = map pad
        [instruction,
         [],
         [],
         ''                       #####'',
         [],
         '' '' @ replicate 49 (CHR ''_''),
         ''_''],
      missile = \<lparr>m_x = 0, m_y = 2, m_c = CHR ''|''\<rparr>,
      prevc = CHR '' ''\<rparr>"

subsection \<open>The properties, in the words of the specification\<close>

text \<open>The barrier's left edge lies in \<open>[0, width - 5]\<close>.\<close>

definition shield_ok :: "int \<Rightarrow> Defender \<Rightarrow> bool" where
  "shield_ok width d = (0 \<le> shieldX d \<and> shieldX d \<le> width - 5)"

text \<open>
  The height of a column, 2 for a column beyond the layout; the top of the column's
  structure is row \<open>height - column_height\<close>, where \<^verbatim>\<open>initDisplay\<close> draws its roof, and a row
  is at or above it when its number is not larger.
\<close>

definition column_height :: "Game \<Rightarrow> int \<Rightarrow> int" where
  "column_height g x = (if x > game_size g - 1 then 2 else layout g ! nat x)"

definition at_or_above_top :: "int \<Rightarrow> Game \<Rightarrow> int \<Rightarrow> int \<Rightarrow> bool" where
  "at_or_above_top height g x y = (y \<le> height - column_height g x)"

text \<open>No column is higher than \<open>tallest\<close>, which is not negative.\<close>

definition below_tallest :: "Game \<Rightarrow> bool" where
  "below_tallest g = (0 \<le> tallest g \<and> list_all (\<lambda>v. v \<le> tallest g) (layout g))"

text \<open>
  The attacker's budget: with \<open>N\<close> the budget at the start, no more than \<open>N\<close> missiles
  have been created, and while the game is on, the missiles created and the missiles left
  add up to \<open>N\<close>.
\<close>

definition budget_inv :: "int \<Rightarrow> Atk_thread \<Rightarrow> bool" where
  "budget_inv N s =
     (int (length (atk_missiles s)) \<le> N \<and>
      (atk_gameOver s \<or>
       (0 < totalMissiles (atk_a s) \<and>
        int (length (atk_missiles s)) + totalMissiles (atk_a s) = N)))"

text \<open>
  The lines of a configuration file that are not comments, and the text of its budget
  line: the C string of the third of them, without its last character.
\<close>

definition non_comment :: "string list \<Rightarrow> string list" where
  "non_comment lines = filter (\<lambda>raw. hd raw \<noteq> CHR ''#'') lines"

definition budget_text :: "string list \<Rightarrow> string" where
  "budget_text lines = butlast (c_string (non_comment lines ! 2))"

section \<open>Theorems\<close>

declare launchMissile_loop.simps [simp del]
declare startAtk_batch.simps [simp del]

lemma createGame_demo:
  "createGame fresh_d fresh_a ''demo.cfg'' (Some demo_file) = Inr demo_game"
  by code_simp

lemma c_div_nonneg: "0 \<le> a \<Longrightarrow> 0 < b \<Longrightarrow> c_div a b = a div b"
  by (cases "a = 0") (simp_all add: c_div_def)

subsection \<open>The integer parser\<close>

text \<open>
  \<^verbatim>\<open>strInt\<close> accepts exactly the numeric strings whose value has an absolute value of at
  most \<^verbatim>\<open>INT_MAX\<close>, and returns the value they denote. The overflow guard of line 123
  refuses exactly the digits that would carry the sum past \<^verbatim>\<open>INT_MAX\<close>, so the sum never
  overflows.
\<close>

lemma dv_Nil: "dv acc [] = acc" by (simp add: dv_def)
lemma dv_Cons: "dv acc (d # ds) = dv (10 * acc + (of_char d - 48)) ds" by (simp add: dv_def)

lemma dv_mono: "list_all is_digit ds \<Longrightarrow> 0 \<le> acc \<Longrightarrow> acc \<le> dv acc ds"
proof (induction ds arbitrary: acc)
  case Nil
  then show ?case by (simp add: dv_Nil)
next
  case (Cons d ds)
  from Cons.prems have d: "0 \<le> (of_char d :: int) - 48" by (simp add: is_digit_def)
  with Cons.prems have "0 \<le> 10 * acc + (of_char d - 48)" by simp
  with Cons.IH [of "10 * acc + (of_char d - 48)"] Cons.prems
  have "10 * acc + (of_char d - 48) \<le> dv acc (d # ds)" by (simp add: dv_Cons)
  with d Cons.prems show ?case by simp
qed

lemma int_div_less_10:
  "(0::int) < b \<Longrightarrow> (a div b < 10) = (a < 10 * b)"
proof -
  assume b: "0 < b"
  have a: "a = b * (a div b) + a mod b" by simp
  have m: "0 \<le> a mod b" "a mod b < b" using b by simp_all
  show ?thesis
  proof
    assume "a div b < 10"
    then have "a div b \<le> 9" by simp
    with b have "b * (a div b) \<le> b * 9" by (intro mult_left_mono) simp_all
    with a m show "a < 10 * b" by linarith
  next
    assume l: "a < 10 * b"
    show "a div b < 10"
    proof (rule ccontr)
      assume "\<not> a div b < 10"
      then have "10 \<le> a div b" by simp
      with b have "b * 10 \<le> b * (a div b)" by (intro mult_left_mono) simp_all
      with a m l show False by linarith
    qed
  qed
qed

lemma overflow_guard:
  "0 < sm \<Longrightarrow> 0 \<le> digit \<Longrightarrow> digit \<le> 9 \<Longrightarrow>
   (c_div (INT_MAX - digit) sm < 10) = (INT_MAX < sm * 10 + digit)"
proof -
  assume s: "0 < sm" and d: "0 \<le> digit" "digit \<le> 9"
  then have "c_div (INT_MAX - digit) sm = (INT_MAX - digit) div sm"
    by (simp add: c_div_nonneg INT_MAX_def)
  moreover have "((INT_MAX - digit) div sm < 10) = (INT_MAX - digit < 10 * sm)"
    using s by (rule int_div_less_10)
  ultimately show ?thesis by auto
qed

lemma strInt_loop_step:
  "0 < i \<or> ch \<noteq> CHR ''-'' \<Longrightarrow>
   strInt_loop i (ch # rest) sm =
     (if \<not> is_digit ch then None
      else if sm \<noteq> 0 \<and> c_div (INT_MAX - (of_char ch - 48)) sm < 10 then None
      else strInt_loop (Suc i) rest (sm * 10 + (of_char ch - 48)))"
  by (auto simp: Let_def is_digit_def)

lemma strInt_loop_digits:
  "list_all is_digit ds \<Longrightarrow> 0 \<le> sm \<Longrightarrow> sm \<le> INT_MAX \<Longrightarrow>
   strInt_loop (Suc i) ds sm = (if dv sm ds \<le> INT_MAX then Some (dv sm ds) else None)"
proof (induction ds arbitrary: sm i)
  case Nil
  then show ?case by (simp add: dv_Nil)
next
  case (Cons d ds)
  let ?digit = "(of_char d :: int) - 48"
  from Cons.prems have dd: "is_digit d" and ds: "list_all is_digit ds" by simp_all
  from dd have d: "0 \<le> ?digit" "?digit \<le> 9" by (simp_all add: is_digit_def)
  have step: "strInt_loop (Suc i) (d # ds) sm =
      (if sm \<noteq> 0 \<and> c_div (INT_MAX - ?digit) sm < 10 then None
       else strInt_loop (Suc (Suc i)) ds (sm * 10 + ?digit))"
    using dd by (simp only: strInt_loop_step [of "Suc i" d ds sm] zero_less_Suc simp_thms if_False)
  show ?case
  proof (cases "INT_MAX < sm * 10 + ?digit")
    case True
    with d have "sm \<noteq> 0" by (auto simp: INT_MAX_def)
    with Cons.prems have pos: "0 < sm" by simp
    have "sm * 10 + ?digit \<le> dv (10 * sm + ?digit) ds"
      using dv_mono [OF ds, of "10 * sm + ?digit"] d Cons.prems by (simp add: mult.commute)
    with True have "\<not> dv sm (d # ds) \<le> INT_MAX" by (simp add: dv_Cons)
    moreover have "strInt_loop (Suc i) (d # ds) sm = None"
      unfolding step using True pos overflow_guard [OF pos d] by simp
    ultimately show ?thesis by simp
  next
    case False
    have g: "\<not> (sm \<noteq> 0 \<and> c_div (INT_MAX - ?digit) sm < 10)"
    proof (cases "sm = 0")
      case True then show ?thesis by simp
    next
      case nz: False
      with Cons.prems have "0 < sm" by simp
      from overflow_guard [OF this d] False show ?thesis by simp
    qed
    have in_range: "0 \<le> sm * 10 + ?digit" "sm * 10 + ?digit \<le> INT_MAX"
      using False d Cons.prems by simp_all
    have "strInt_loop (Suc i) (d # ds) sm = strInt_loop (Suc (Suc i)) ds (sm * 10 + ?digit)"
      using g by (simp only: step if_False)
    also have "\<dots> = (if dv (sm * 10 + ?digit) ds \<le> INT_MAX then Some (dv (sm * 10 + ?digit) ds) else None)"
      by (rule Cons.IH [OF ds in_range])
    finally show ?thesis by (simp add: dv_Cons mult.commute)
  qed
qed

lemma strInt_loop_nondigit:
  "\<not> list_all is_digit ds \<Longrightarrow> strInt_loop (Suc i) ds sm = None"
proof (induction ds arbitrary: sm i)
  case Nil
  then show ?case by simp
next
  case (Cons d ds)
  note step = strInt_loop_step [of "Suc i" d ds sm]
  show ?case
  proof (cases "is_digit d")
    case True
    with Cons.prems have "\<not> list_all is_digit ds" by simp
    from Cons.IH [OF this] True show ?thesis by (simp add: step del: strInt_loop.simps)
  next
    case False
    then show ?thesis by (simp add: step del: strInt_loop.simps)
  qed
qed

lemma strInt_loop_all:
  "0 \<le> sm \<Longrightarrow> sm \<le> INT_MAX \<Longrightarrow>
   strInt_loop (Suc i) ds sm =
     (if list_all is_digit ds \<and> dv sm ds \<le> INT_MAX then Some (dv sm ds) else None)"
proof (cases "list_all is_digit ds")
  case True
  assume "0 \<le> sm" "sm \<le> INT_MAX"
  from strInt_loop_digits [OF True this] True show ?thesis by simp
next
  case False
  from strInt_loop_nondigit [OF False] False show ?thesis by simp
qed

lemma strInt_loop_index: "strInt_loop (Suc i) ds sm = strInt_loop (Suc j) ds sm"
proof (induction ds arbitrary: i j sm)
  case Nil
  show ?case by simp
next
  case (Cons d ds)
  from Cons.IH [of "Suc i" _ "Suc j"] show ?case
    by (simp add: strInt_loop_step del: strInt_loop.simps)
qed

lemma strInt_loop_first:
  "ch \<noteq> CHR ''-'' \<Longrightarrow>
   strInt_loop 0 (ch # rest) 0 =
     (if list_all is_digit (ch # rest) \<and> dv 0 (ch # rest) \<le> INT_MAX
      then Some (dv 0 (ch # rest)) else None)"
proof -
  assume nm: "ch \<noteq> CHR ''-''"
  have im: "(0::int) \<le> INT_MAX" by (simp add: INT_MAX_def)
  have "strInt_loop 0 (ch # rest) 0 =
      (if \<not> is_digit ch then None else strInt_loop (Suc 0) rest (of_char ch - 48))"
    using nm by (simp add: strInt_loop_step [of 0 ch rest 0] del: strInt_loop.simps)
  also have "\<dots> = strInt_loop (Suc 0) (ch # rest) 0"
    using strInt_loop_index [of 0 rest "of_char ch - 48" "Suc 0"]
    by (simp add: strInt_loop_step [of "Suc 0" ch rest 0] del: strInt_loop.simps)
  also have "\<dots> = (if list_all is_digit (ch # rest) \<and> dv 0 (ch # rest) \<le> INT_MAX
      then Some (dv 0 (ch # rest)) else None)"
    using im by (rule strInt_loop_all [OF order_refl])
  finally show ?thesis .
qed

lemma digits_value_dv: "digits_value ds = dv 0 ds"
  by (simp add: digits_value_def dv_def)

lemma digits_value_nonneg: "list_all is_digit ds \<Longrightarrow> 0 \<le> digits_value ds"
  using dv_mono [of ds 0] by (simp add: digits_value_dv)

lemma strInt_correct:
  "strInt s = (if numeric s \<and> \<bar>denotes s\<bar> \<le> INT_MAX then Some (denotes s) else None)"
proof (cases s)
  case Nil
  then show ?thesis by (simp add: strInt_def numeric_def)
next
  case (Cons ch rest)
  have im: "(0::int) \<le> INT_MAX" by (simp add: INT_MAX_def)
  show ?thesis
  proof (cases "ch = CHR ''-''")
    case True
    have "strInt_loop 0 s 0 = strInt_loop (Suc 0) rest 0" by (simp add: Cons True)
    also have "\<dots> = (if list_all is_digit rest \<and> dv 0 rest \<le> INT_MAX then Some (dv 0 rest) else None)"
      using im by (rule strInt_loop_all [OF order_refl])
    finally have l: "strInt_loop 0 s 0 =
        (if list_all is_digit rest \<and> dv 0 rest \<le> INT_MAX then Some (dv 0 rest) else None)" .
    have n: "numeric s = (rest \<noteq> [] \<and> list_all is_digit rest)"
      by (simp add: numeric_def Cons True)
    have v: "denotes s = - dv 0 rest" by (simp add: denotes_def Cons True digits_value_dv)
    have sd: "strInt s = (case strInt_loop 0 s 0 of None \<Rightarrow> None
        | Some sm \<Rightarrow> if rest = [] then None else Some (- sm))"
      by (simp add: strInt_def Cons True split: option.split)
    show ?thesis
    proof (cases "list_all is_digit rest")
      case False
      with l n sd show ?thesis by simp
    next
      case dg: True
      then have "0 \<le> dv 0 rest" using dv_mono [of rest 0] by simp
      then have "\<bar>- dv 0 rest\<bar> = dv 0 rest" by simp
      with l n sd v dg show ?thesis by simp
    qed
  next
    case False
    have l: "strInt_loop 0 s 0 =
        (if list_all is_digit s \<and> dv 0 s \<le> INT_MAX then Some (dv 0 s) else None)"
      unfolding Cons using False by (rule strInt_loop_first)
    have n: "numeric s = list_all is_digit s" by (simp add: numeric_def Cons False)
    have v: "denotes s = dv 0 s" by (simp add: denotes_def Cons False digits_value_dv)
    have sd: "strInt s = (case strInt_loop 0 s 0 of None \<Rightarrow> None | Some sm \<Rightarrow> Some sm)"
      using False by (simp add: strInt_def Cons split: option.split)
    show ?thesis
    proof (cases "list_all is_digit s")
      case nd: False
      with l n sd show ?thesis by simp
    next
      case dg: True
      then have "0 \<le> dv 0 s" using dv_mono [of s 0] by simp
      then have "\<bar>dv 0 s\<bar> = dv 0 s" by simp
      with l n sd v dg show ?thesis by simp
    qed
  qed
qed

subsection \<open>The batch size\<close>

text \<open>
  At a width of 2 the batch has two slots, where \<open>min(8, max(1, width / 4))\<close> is 1.
\<close>

theorem packetSize_small_counterexample:
  "packetSize 2 \<noteq> min 8 (max 1 (c_div 2 4))"
  by (simp add: packetSize_def c_div_def)

text \<open>
  C2, as amended: for every width of at least 4 the batch size is
  \<open>min(8, max(1, width / 4))\<close>; for a width below 4 it is the width itself; and for every
  width of at least 1 it is at least 1 and at most 8.
\<close>

theorem packetSize_amended:
  "(4 \<le> width \<longrightarrow> packetSize width = min 8 (max 1 (c_div width 4))) \<and>
   (0 \<le> width \<and> width < 4 \<longrightarrow> packetSize width = width) \<and>
   (1 \<le> width \<longrightarrow> 1 \<le> packetSize width \<and> packetSize width \<le> 8)"
proof (intro conjI impI)
  assume w: "4 \<le> width"
  then have d: "c_div width 4 = width div 4" by (simp add: c_div_nonneg)
  from w show "packetSize width = min 8 (max 1 (c_div width 4))"
    unfolding packetSize_def d by auto
next
  assume w: "0 \<le> width \<and> width < 4"
  then have d: "c_div width 4 = width div 4" by (simp add: c_div_nonneg)
  from w show "packetSize width = width"
    unfolding packetSize_def d by auto
next
  assume w: "1 \<le> width"
  then have d: "c_div width 4 = width div 4" by (simp add: c_div_nonneg)
  from w show "1 \<le> packetSize width" unfolding packetSize_def d by auto
  from w show "packetSize width \<le> 8" unfolding packetSize_def d by auto
qed

theorem packetSize_amended_witness:
  "packetSize 12 = 3 \<and> packetSize 80 = 8 \<and> packetSize 3 = 3 \<and>
   1 \<le> packetSize 3 \<and> packetSize 3 \<le> 8"
  using packetSize_amended [of 12] packetSize_amended [of 80] packetSize_amended [of 3]
  by (simp add: c_div_def)


subsection \<open>The barrier\<close>

text \<open>In a terminal 4 columns wide the barrier starts at column 0, right of \<open>width - 5\<close>.\<close>

theorem shield_narrow_counterexample:
  "\<not> shield_ok 4 (defender (initDisplay_shield 24 4 demo_game))"
  by (simp add: shield_ok_def initDisplay_shield_def c_div_def)

lemma initDisplay_shield_ok:
  "5 \<le> width \<Longrightarrow> shield_ok width (defender (initDisplay_shield height width g))"
proof -
  assume w: "5 \<le> width"
  then have "c_div width 2 = width div 2" by (simp add: c_div_nonneg)
  with w show ?thesis unfolding shield_ok_def initDisplay_shield_def by simp arith
qed

lemma startDef_key_ok:
  "shield_ok width (def_d s) \<Longrightarrow> shield_ok width (def_d (startDef_key width k s))"
  by (cases k) (auto simp: shield_ok_def startDef_key_def)

lemma startDef_loop_ok:
  "shield_ok width (def_d s) \<Longrightarrow> shield_ok width (def_d (def_thread (startDef_loop atk width n s keys)))"
proof (induction keys arbitrary: n s)
  case Nil
  then show ?case by (simp add: def_thread_def)
next
  case (Cons k ks)
  have "shield_ok width (def_d (startDef_key width k (s\<lparr>def_gameOver := def_gameOver s \<or> atk n\<rparr>)))"
    by (rule startDef_key_ok) (simp add: Cons.prems)
  then show ?case using Cons.prems by (simp add: Cons.IH) (simp add: def_thread_def)
qed

text \<open>
  C6, as amended: in a terminal at least 5 columns wide the barrier's left edge always
  satisfies \<open>0 \<le> shieldX \<le> width - 5\<close>: the initial position \<open>width / 2 - 2\<close> does, every
  key the defender reads keeps it so, whatever the keys and whenever the attacker ends the
  game; a move left at 0 or right at \<open>width - 5\<close> is refused and changes nothing.
\<close>

theorem shield_in_range:
  "(5 \<le> width \<longrightarrow> shield_ok width (defender (initDisplay_shield height width g))) \<and>
   (shield_ok width (def_d s) \<longrightarrow> shield_ok width (def_d (startDef_key width k s))) \<and>
   (shieldX (def_d s) \<le> 0 \<longrightarrow> startDef_key width KEY_LEFT s = s) \<and>
   (width - 5 \<le> shieldX (def_d s) \<longrightarrow> startDef_key width KEY_RIGHT s = s) \<and>
   (5 \<le> width \<longrightarrow>
      shield_ok width (def_d (def_thread
        (startDef atk width (defender (initDisplay_shield height width g)) flag keys))))"
proof (intro conjI impI)
  show "shield_ok width (defender (initDisplay_shield height width g))" if "5 \<le> width"
    using that by (rule initDisplay_shield_ok)
  show "shield_ok width (def_d (startDef_key width k s))" if "shield_ok width (def_d s)"
    using that by (rule startDef_key_ok)
  show "startDef_key width KEY_LEFT s = s" if "shieldX (def_d s) \<le> 0"
    using that by (simp add: startDef_key_def)
  show "startDef_key width KEY_RIGHT s = s" if "width - 5 \<le> shieldX (def_d s)"
    using that by (simp add: startDef_key_def)
  show "shield_ok width (def_d (def_thread
        (startDef atk width (defender (initDisplay_shield height width g)) flag keys)))"
    if "5 \<le> width"
    unfolding startDef_def
    by (rule startDef_loop_ok) (simp add: initDisplay_shield_ok that)
qed

theorem shield_in_range_witness:
  "shield_ok 6 (defender (initDisplay_shield 24 6 demo_game)) \<and>
   shield_ok 6 (def_d (startDef_key 6 KEY_RIGHT
      \<lparr>def_gameOver = False, def_b = True, def_d = defender (initDisplay_shield 24 6 demo_game)\<rparr>)) \<and>
   startDef_key 6 KEY_LEFT \<lparr>def_gameOver = False, def_b = True, def_d = fresh_d\<rparr> =
      \<lparr>def_gameOver = False, def_b = True, def_d = fresh_d\<rparr> \<and>
   startDef_key 5 KEY_RIGHT \<lparr>def_gameOver = False, def_b = True, def_d = fresh_d\<rparr> =
      \<lparr>def_gameOver = False, def_b = True, def_d = fresh_d\<rparr> \<and>
   shieldX (def_d (def_thread (startDef never 6 (defender (initDisplay_shield 24 6 demo_game)) False
      [KEY_LEFT, KEY_LEFT, KEY_RIGHT, KEY_RIGHT, KEY_RIGHT]))) = 1 \<and>
   shield_ok 6 (def_d (def_thread (startDef never 6 (defender (initDisplay_shield 24 6 demo_game)) False
      [KEY_LEFT, KEY_LEFT, KEY_RIGHT, KEY_RIGHT, KEY_RIGHT])))"
proof -
  have i: "shieldX (defender (initDisplay_shield 24 6 demo_game)) = 1"
    by (simp add: initDisplay_shield_def c_div_def)
  have w: "(5::int) \<le> 6" by simp
  have l: "shieldX (def_d \<lparr>def_gameOver = False, def_b = True, def_d = fresh_d\<rparr>) \<le> 0"
    by (simp add: fresh_d_def)
  have r: "5 - 5 \<le> shieldX (def_d \<lparr>def_gameOver = False, def_b = True, def_d = fresh_d\<rparr>)"
    by (simp add: fresh_d_def)
  have run: "shieldX (def_d (def_thread
      (startDef never 6 (defender (initDisplay_shield 24 6 demo_game)) False
         [KEY_LEFT, KEY_LEFT, KEY_RIGHT, KEY_RIGHT, KEY_RIGHT]))) = 1"
    by (simp add: startDef_def never_def startDef_key_def def_thread_def i)
  note a = shield_in_range [of 6 24 demo_game
      "\<lparr>def_gameOver = False, def_b = True, def_d = defender (initDisplay_shield 24 6 demo_game)\<rparr>"
      KEY_RIGHT never False "[KEY_LEFT, KEY_LEFT, KEY_RIGHT, KEY_RIGHT, KEY_RIGHT]"]
  note b = shield_in_range [of 6 24 demo_game
      "\<lparr>def_gameOver = False, def_b = True, def_d = fresh_d\<rparr>" KEY_LEFT never False "[]"]
  note c = shield_in_range [of 5 24 demo_game
      "\<lparr>def_gameOver = False, def_b = True, def_d = fresh_d\<rparr>" KEY_RIGHT never False "[]"]
  from a w have 1: "shield_ok 6 (defender (initDisplay_shield 24 6 demo_game))" by simp
  from a 1 have 2: "shield_ok 6 (def_d (startDef_key 6 KEY_RIGHT
      \<lparr>def_gameOver = False, def_b = True, def_d = defender (initDisplay_shield 24 6 demo_game)\<rparr>))"
    by simp
  from b l have 3: "startDef_key 6 KEY_LEFT \<lparr>def_gameOver = False, def_b = True, def_d = fresh_d\<rparr> =
      \<lparr>def_gameOver = False, def_b = True, def_d = fresh_d\<rparr>" by blast
  from c r have 4: "startDef_key 5 KEY_RIGHT \<lparr>def_gameOver = False, def_b = True, def_d = fresh_d\<rparr> =
      \<lparr>def_gameOver = False, def_b = True, def_d = fresh_d\<rparr>" by blast
  from a w have 5: "shield_ok 6 (def_d (def_thread
      (startDef never 6 (defender (initDisplay_shield 24 6 demo_game)) False
         [KEY_LEFT, KEY_LEFT, KEY_RIGHT, KEY_RIGHT, KEY_RIGHT])))" by blast
  from 1 2 3 4 run 5 show ?thesis by blast
qed

subsection \<open>The defender's loop\<close>

text \<open>
  In a terminal of 24 rows and 80 columns the defender reads the quit key first: the loop
  returns after that one read and leaves the next key unread, so it does not go round once
  more. The attacker has set the flag from the start and the defender types two other
  keys: the loop reads both, moves the shield, and blocks in a third read.
\<close>

theorem startDef_counterexample:
  "startDef never 80 (defender (initDisplay_shield 24 80 demo_game)) False [Key_q, KEY_LEFT] =
     Def_returned 1
       \<lparr>def_gameOver = True, def_b = False,
        def_d = \<lparr>d_name = Some ''Alice'', shieldY = 19, shieldX = 38\<rparr>\<rparr> [KEY_LEFT] \<and>
   startDef from_start 80 (defender (initDisplay_shield 24 80 demo_game)) False
       [KEY_LEFT, Key_other] =
     Def_blocked 2
       \<lparr>def_gameOver = True, def_b = True,
        def_d = \<lparr>d_name = Some ''Alice'', shieldY = 19, shieldX = 37\<rparr>\<rparr>"
  by (simp add: startDef_def never_def from_start_def startDef_key_def initDisplay_shield_def
      demo_game_def c_div_def)

lemma startDef_loop_no_quit:
  "def_b s \<Longrightarrow> Key_q \<notin> set keys \<Longrightarrow>
   \<exists>s'. startDef_loop atk width n s keys = Def_blocked (n + length keys) s' \<and> def_b s'"
proof (induction keys arbitrary: n s)
  case Nil
  then show ?case by simp
next
  case (Cons k ks)
  let ?s1 = "startDef_key width k (s\<lparr>def_gameOver := def_gameOver s \<or> atk n\<rparr>)"
  from Cons.prems have b: "def_b ?s1" by (cases k) (auto simp: startDef_key_def)
  from Cons.prems have "Key_q \<notin> set ks" by simp
  from Cons.IH [OF b this, of "Suc n"] Cons.prems(1) show ?case by simp
qed

lemma startDef_loop_quit:
  "def_b s \<Longrightarrow> Key_q \<notin> set pre \<Longrightarrow>
   \<exists>s'. startDef_loop atk width n s (pre @ Key_q # post) =
          Def_returned (Suc (n + length pre)) s' post \<and> def_gameOver s' \<and> \<not> def_b s'"
proof (induction pre arbitrary: n s)
  case Nil
  then show ?case by (cases post) (simp_all add: startDef_key_def)
next
  case (Cons k ks)
  let ?s1 = "startDef_key width k (s\<lparr>def_gameOver := def_gameOver s \<or> atk n\<rparr>)"
  from Cons.prems have b: "def_b ?s1" by (cases k) (auto simp: startDef_key_def)
  from Cons.prems have "Key_q \<notin> set ks" by simp
  from Cons.IH [OF b this, of "Suc n"] Cons.prems(1) show ?case by simp
qed

text \<open>
  C5, as amended: the defender's loop ends exactly by reading the quit key. When it reads
  the quit key it sets \<open>gameOver\<close>, clears \<open>b\<close> and returns at its next test, without
  another read. Until then it goes on reading, whether or not the attacker has set
  \<open>gameOver\<close>: with no quit key among the keys it reads them all and blocks in the next
  read.
\<close>

theorem startDef_exits_on_quit_only:
  "(Key_q \<notin> set pre \<longrightarrow>
      (\<exists>s'. startDef atk width d flag (pre @ Key_q # post) = Def_returned (Suc (length pre)) s' post \<and>
            def_gameOver s' \<and> \<not> def_b s')) \<and>
   (Key_q \<notin> set keys \<longrightarrow>
      (\<exists>s'. startDef atk width d flag keys = Def_blocked (length keys) s'))"
proof (intro conjI impI)
  assume "Key_q \<notin> set pre"
  from startDef_loop_quit [OF _ this, of "\<lparr>def_gameOver = flag, def_b = True, def_d = d\<rparr>" atk width 0 post]
  show "\<exists>s'. startDef atk width d flag (pre @ Key_q # post) = Def_returned (Suc (length pre)) s' post \<and>
            def_gameOver s' \<and> \<not> def_b s'"
    by (simp add: startDef_def)
next
  assume "Key_q \<notin> set keys"
  from startDef_loop_no_quit [OF _ this, of "\<lparr>def_gameOver = flag, def_b = True, def_d = d\<rparr>" atk width 0]
  show "\<exists>s'. startDef atk width d flag keys = Def_blocked (length keys) s'"
    by (auto simp add: startDef_def)
qed

theorem startDef_exits_on_quit_only_witness:
  "(\<exists>s'. startDef from_start 80 fresh_d False ([KEY_LEFT, Key_other] @ Key_q # [KEY_RIGHT]) =
          Def_returned 3 s' [KEY_RIGHT] \<and> def_gameOver s' \<and> \<not> def_b s') \<and>
   (\<exists>s'. startDef from_start 80 fresh_d False [KEY_LEFT, Key_other] = Def_blocked 2 s')"
  using startDef_exits_on_quit_only [of "[KEY_LEFT, Key_other]" from_start 80 fresh_d False "[KEY_RIGHT]"
      "[KEY_LEFT, Key_other]"]
  by (simp add: numeral_2_eq_2 numeral_3_eq_3)

subsection \<open>The geometry check\<close>

text \<open>
  The 32-bit subtraction is the subtraction of the integers as long as the result is in
  the range of \<^verbatim>\<open>int\<close>, and so is the test of line 551 for a terminal height in that range
  and columns up to \<open>INT_MAX - 4\<close>: there the process exits with the failure status and the
  geometry message, without having run \<^verbatim>\<open>initDisplay\<close>, if and only if
  \<open>height - max(2, tallest) - 2 - 1 - 2 < 0\<close>, and otherwise goes on to draw the layout.
\<close>

lemma int32_id: "- INT_MAX - 1 \<le> v \<Longrightarrow> v \<le> INT_MAX \<Longrightarrow> int32 v = v"
  by (simp add: int32_def INT_MAX_def)

lemma geometry_in_range:
  "0 \<le> height \<Longrightarrow> height \<le> INT_MAX \<Longrightarrow> 0 \<le> t \<Longrightarrow> t \<le> INT_MAX - 4 \<Longrightarrow>
   c_sub (c_sub (c_sub (c_sub height (if t < 2 then 2 else t)) 2) 1) 2 =
     height - max 2 t - 2 - 1 - 2"
proof -
  assume h: "0 \<le> height" "height \<le> INT_MAX" and t: "0 \<le> t" "t \<le> INT_MAX - 4"
  let ?m = "if t < 2 then 2 else t"
  have m: "2 \<le> ?m" "?m \<le> INT_MAX - 4" using t by (auto simp: INT_MAX_def)
  have 1: "c_sub height ?m = height - ?m"
    unfolding c_sub_def using h m by (intro int32_id) (auto simp: INT_MAX_def)
  have 2: "c_sub (height - ?m) 2 = height - ?m - 2"
    unfolding c_sub_def using h m by (intro int32_id) (auto simp: INT_MAX_def)
  have 3: "c_sub (height - ?m - 2) 1 = height - ?m - 2 - 1"
    unfolding c_sub_def using h m by (intro int32_id) (auto simp: INT_MAX_def)
  have 4: "c_sub (height - ?m - 2 - 1) 2 = height - ?m - 2 - 1 - 2"
    unfolding c_sub_def using h m by (intro int32_id) (auto simp: INT_MAX_def)
  have "?m = max 2 t" by (simp add: max_def)
  with 1 2 3 4 show ?thesis by simp
qed

lemma main_geometry_in_range:
  "length argv = 2 \<Longrightarrow> createGame d0 a0 (argv ! 1) (fs (argv ! 1)) = Inr g \<Longrightarrow>
   0 \<le> height \<Longrightarrow> height \<le> INT_MAX \<Longrightarrow> 0 \<le> tallest g \<Longrightarrow> tallest g \<le> INT_MAX - 4 \<Longrightarrow>
   main argv fs d0 a0 height width =
     (if height - max 2 (tallest g) - 2 - 1 - 2 < 0 then
        Exited EXIT_FAILURE [Initscr, Cbreak, Noecho, Keypad, Endwin, Stderr_height height]
      else Simulating [Initscr, Cbreak, Noecho, Keypad, Srand, InitDisplay]
             (initDisplay_shield height width g))"
  by (simp add: main_def geometry_in_range)

lemma main_geometry_demo:
  "main [''threads'', ''demo.cfg''] demo_fs fresh_d fresh_a 7 80 =
     Exited EXIT_FAILURE [Initscr, Cbreak, Noecho, Keypad, Endwin, Stderr_height 7] \<and>
   main [''threads'', ''demo.cfg''] demo_fs fresh_d fresh_a 8 80 =
     Simulating [Initscr, Cbreak, Noecho, Keypad, Srand, InitDisplay]
       (initDisplay_shield 8 80 demo_game)"
  by code_simp

text \<open>
  C9 asks for the exit whenever \<open>height - max(2, tallest) - 2 - 1 - 2 < 0\<close>. For the layout
  line \<open>2147483647\<close>, which \<^verbatim>\<open>createGame\<close> accepts, in a terminal of 3 rows that number is
  negative, but the fourth subtraction of line 551 leaves the range of \<^verbatim>\<open>int\<close>: its 32-bit
  result is \<open>2147483647\<close>, the test fails and the process goes on to \<^verbatim>\<open>initDisplay\<close>.
\<close>

theorem geometry_check_overflow:
  "createGame fresh_d fresh_a ''tall.cfg'' (demo_fs ''tall.cfg'') = Inr tall_game \<and>
   3 - max 2 (tallest tall_game) - 2 - 1 - 2 < 0 \<and>
   c_sub (c_sub (c_sub (c_sub 3 (tallest tall_game)) 2) 1) 2 = 2147483647 \<and>
   main [''threads'', ''tall.cfg''] demo_fs fresh_d fresh_a 3 50 =
     Simulating [Initscr, Cbreak, Noecho, Keypad, Srand, InitDisplay]
       (initDisplay_shield 3 50 tall_game)"
  by code_simp

subsection \<open>A projectile ends\<close>

lemma missile_tick_row: "m_y (missile (missile_tick height f)) = m_y (missile f) + 1"
  by (simp add: missile_tick_def Let_def split_beta)

lemma missile_interfere: "missile (interfere e f) = missile f"
  by (simp add: interfere_def)

lemma launchMissile_loop_bound:
  "launchMissile_loop env height n f = (n', f') \<Longrightarrow>
   int n' \<le> int n + max 1 (height + 1 - m_y (missile f)) \<and>
   (m_c (missile f') = CHR ''*'' \<or> m_y (missile f') > height)"
proof (induction env height n f rule: launchMissile_loop.induct)
  case (1 env height n f)
  let ?f1 = "missile_tick height (interfere (env n) f)"
  have y1: "m_y (missile ?f1) = m_y (missile f) + 1"
    by (simp add: missile_tick_row missile_interfere)
  show ?case
  proof (cases "m_c (missile f) \<noteq> CHR ''*''")
    case False
    with "1.prems" show ?thesis by (simp add: launchMissile_loop.simps [of env height n f])
  next
    case falling: True
    show ?thesis
    proof (cases "m_y (missile ?f1) > height")
      case True
      with falling "1.prems" have "n' = Suc n" "f' = ?f1"
        by (simp_all add: launchMissile_loop.simps [of env height n f])
      with True show ?thesis by simp
    next
      case False
      with falling "1.prems" have r: "launchMissile_loop env height (Suc n) ?f1 = (n', f')"
        by (simp add: launchMissile_loop.simps [of env height n f])
      from "1.IH" [OF falling False r] y1 False show ?thesis by auto
    qed
  qed
qed

text \<open>
  C7: a missile created at row 2 in a field of at least one row leaves its loop after at
  most \<open>height\<close> passes, whatever the other threads do meanwhile; when it leaves, it is
  exploded or its row is past \<open>height\<close>; and every pass moves it down by one row.
\<close>

theorem missile_terminates:
  "1 \<le> height \<Longrightarrow> m_y (missile f) = 2 \<Longrightarrow>
   fst (launchMissile_loop env height 0 f) \<le> nat height \<and>
   (m_c (missile (snd (launchMissile_loop env height 0 f))) = CHR ''*'' \<or>
    m_y (missile (snd (launchMissile_loop env height 0 f))) > height) \<and>
   m_y (missile (missile_tick height (interfere (env k) g))) = m_y (missile g) + 1"
proof -
  assume h: "1 \<le> height" and y: "m_y (missile f) = 2"
  obtain n' f' where r: "launchMissile_loop env height 0 f = (n', f')" by (cases "launchMissile_loop env height 0 f")
  from launchMissile_loop_bound [OF r] h y
  have "int n' \<le> height" and e: "m_c (missile f') = CHR ''*'' \<or> m_y (missile f') > height"
    by auto
  then have "n' \<le> nat height" by simp
  with e r show ?thesis by (simp add: missile_tick_row missile_interfere)
qed

theorem missile_terminates_witness:
  "fst (launchMissile_loop quiet 9 0 (missile_at 1 city_flight)) = 5 \<and>
   missile (snd (launchMissile_loop quiet 9 0 (missile_at 1 city_flight))) =
     \<lparr>m_x = 1, m_y = 7, m_c = CHR ''*''\<rparr> \<and>
   fst (launchMissile_loop quiet 9 0 (missile_at 1 city_flight)) \<le> nat 9"
proof -
  have h: "(1::int) \<le> 9" by simp
  have y: "m_y (missile (missile_at 1 city_flight)) = 2" by (simp add: missile_at_def)
  have e: "fst (launchMissile_loop quiet 9 0 (missile_at 1 city_flight)) = 5"
    by code_simp
  have m: "missile (snd (launchMissile_loop quiet 9 0 (missile_at 1 city_flight))) =
     \<lparr>m_x = 1, m_y = 7, m_c = CHR ''*''\<rparr>"
    by code_simp
  from missile_terminates [OF h y, of quiet] e m show ?thesis by simp
qed

subsection \<open>A projectile meets an explosion marker\<close>

lemma mvinch_next_row:
  "mvinch (mvinsch (mvdelch s y x) y x ch) (y + 1) x' = mvinch s (y + 1) x'"
  by (auto simp: mvinch_def mvinsch_def mvdelch_def in_window_def nth_list_update nat_add_distrib)

text \<open>
  The two flights with a marker below the missile arise from the freshly drawn field:
  \<open>city_flight\<close> by the flight of a first missile in column 1 and three passes of a second
  one, \<open>shield_flight\<close> by the flight of a missile in column 25 and the creation of a
  second one.
\<close>

lemma city_flight_reached:
  "missile_tick 9 (missile_tick 9 (missile_tick 9
     (launchMissile_enter (missile_at 1 (snd (launchMissile quiet 9 city_start)))))) = city_flight"
  by code_simp

lemma shield_flight_reached:
  "launchMissile_enter (missile_at 25 (snd (launchMissile quiet 9 (missile_at 25 city_start)))) =
     shield_flight"
  by code_simp

text \<open>
  In \<open>city_flight\<close> the cell below the missile holds the marker and its row, 6, is the top
  of the column's remaining structure (\<open>9 - 3\<close>); the missile is not marked exploded.
\<close>

theorem explosion_marker_counterexample:
  "mvinch (scr city_flight) (m_y (missile city_flight) + 1) (m_x (missile city_flight)) = CHR ''*'' \<and>
   at_or_above_top 9 (game city_flight) (m_x (missile city_flight)) (m_y (missile city_flight) + 1) \<and>
   m_c (missile (missile_tick 9 city_flight)) \<noteq> CHR ''*''"
  by code_simp

text \<open>
  C1, as amended: when the cell a falling missile is about to enter holds the marker \<open>*\<close>,
  the missile is marked exploded if and only if its new row is above the whole skyline,
  \<open>row < height - tallest\<close> with the global \<open>tallest\<close>, or its new row is the impact row of
  its column, \<open>height - column_height + 1\<close>.
\<close>

theorem explosion_marker_rule:
  "m_c (missile f) \<noteq> CHR ''*'' \<Longrightarrow> m_y (missile f) + 1 < height \<Longrightarrow>
   mvinch (scr f) (m_y (missile f) + 1) (m_x (missile f)) = CHR ''*'' \<Longrightarrow>
   (m_c (missile (missile_tick height f)) = CHR ''*'') =
     (m_y (missile f) + 1 < height - tallest (game f) \<or>
      m_y (missile f) + 1 = height - column_height (game f) (m_x (missile f)) + 1)"
  by (simp add: missile_tick_def Let_def mvinch_next_row column_height_def)

theorem explosion_marker_rule_witness:
  "m_c (missile (missile_tick 9 city_flight)) \<noteq> CHR ''*'' \<and>
   m_c (missile (missile_tick 9 shield_flight)) = CHR ''*''"
proof -
  have a: "m_c (missile city_flight) \<noteq> CHR ''*''" by (simp add: city_flight_def)
  have b: "m_y (missile city_flight) + 1 < 9" by (simp add: city_flight_def)
  have c: "mvinch (scr city_flight) (m_y (missile city_flight) + 1) (m_x (missile city_flight)) = CHR ''*''"
    by code_simp
  have d: "\<not> (m_y (missile city_flight) + 1 < 9 - tallest (game city_flight))"
    by (simp add: city_flight_def city_game_def)
  have e: "m_y (missile city_flight) + 1 \<noteq>
      9 - column_height (game city_flight) (m_x (missile city_flight)) + 1"
    by (simp add: city_flight_def city_game_def column_height_def game_size_def)
  have a': "m_c (missile shield_flight) \<noteq> CHR ''*''" by (simp add: shield_flight_def)
  have b': "m_y (missile shield_flight) + 1 < 9" by (simp add: shield_flight_def)
  have c': "mvinch (scr shield_flight) (m_y (missile shield_flight) + 1) (m_x (missile shield_flight)) = CHR ''*''"
    by code_simp
  have d': "m_y (missile shield_flight) + 1 < 9 - tallest (game shield_flight)"
    by (simp add: shield_flight_def city_game_def)
  from explosion_marker_rule [OF a b c] d e explosion_marker_rule [OF a' b' c'] d'
  show ?thesis by simp
qed

subsection \<open>The attacker's budget\<close>

lemma startAtk_batch_finite:
  "\<not> atk_gameOver s \<Longrightarrow> 0 < totalMissiles (atk_a s) \<Longrightarrow>
   int (length (atk_missiles s)) + totalMissiles (atk_a s) = N \<Longrightarrow>
   startAtk_batch quit rnd width psize i s = (i', s') \<Longrightarrow>
   (atk_gameOver s' \<and> int (length (atk_missiles s')) \<le> N \<and>
      ((\<forall>k. \<not> quit k) \<longrightarrow> int (length (atk_missiles s')) = N \<and> totalMissiles (atk_a s') = 0)) \<or>
   (\<not> atk_gameOver s' \<and> 0 < totalMissiles (atk_a s') \<and>
      int (length (atk_missiles s')) + totalMissiles (atk_a s') = N \<and>
      (i < psize \<longrightarrow> totalMissiles (atk_a s') < totalMissiles (atk_a s)))"
proof (induction quit rnd width psize i s rule: startAtk_batch.induct)
  case (1 quit rnd width psize i s)
  note eq = startAtk_batch.simps [of quit rnd width psize i s]
  show ?case
  proof (cases "i < psize")
    case False
    with "1.prems" show ?thesis by (simp add: eq)
  next
    case slot: True
    show ?thesis
    proof (cases "quit (atk_reads s)")
      case True
      with slot "1.prems" show ?thesis by (auto simp: eq)
    next
      case noquit: False
      show ?thesis
      proof (cases "totalMissiles (atk_a s) - 1 = 0")
        case True
        with slot noquit "1.prems" show ?thesis by (auto simp: eq)
      next
        case False
        let ?s1 = "s\<lparr>atk_missiles := atk_missiles s @
                     [\<lparr>m_x = c_mod (rnd (length (atk_missiles s))) width, m_y = 2, m_c = CHR ''|''\<rparr>],
                   atk_reads := Suc (atk_reads s),
                   atk_a := (atk_a s)\<lparr>totalMissiles := totalMissiles (atk_a s) - 1\<rparr>\<rparr>"
        from slot noquit False "1.prems"
        have r: "startAtk_batch quit rnd width psize (i + 1) ?s1 = (i', s')"
          by (simp add: eq)
        have g: "\<not> (atk_gameOver s \<or> quit (atk_reads s))" using noquit "1.prems" by simp
        have "(atk_gameOver s' \<and> int (length (atk_missiles s')) \<le> N \<and>
                ((\<forall>k. \<not> quit k) \<longrightarrow> int (length (atk_missiles s')) = N \<and> totalMissiles (atk_a s') = 0)) \<or>
              (\<not> atk_gameOver s' \<and> 0 < totalMissiles (atk_a s') \<and>
                int (length (atk_missiles s')) + totalMissiles (atk_a s') = N \<and>
                (i + 1 < psize \<longrightarrow> totalMissiles (atk_a s') < totalMissiles (atk_a ?s1)))"
          using "1.prems" False
          by (intro "1.IH"(1) [OF slot g _ False _ _ _ r]) auto
        moreover have "totalMissiles (atk_a ?s1) < totalMissiles (atk_a s)" by simp
        moreover have "i + 1 < psize \<or> (\<not> i + 1 < psize)" by simp
        moreover have "\<not> i + 1 < psize \<Longrightarrow> s' = ?s1"
          using r by (simp add: startAtk_batch.simps [of quit rnd width psize "i + 1" ?s1])
        ultimately show ?thesis by auto
      qed
    qed
  qed
qed


lemma packetSize_pos: "1 \<le> width \<Longrightarrow> 1 \<le> packetSize width"
proof -
  assume w: "1 \<le> width"
  then have d: "c_div width 4 = width div 4" by (simp add: c_div_nonneg)
  from w show ?thesis unfolding packetSize_def d by auto
qed

lemma startAtk_loop_bound:
  "budget_inv N s \<Longrightarrow> budget_inv N (atk_thread (startAtk_loop fuel quit rnd width psize s))"
proof (induction fuel arbitrary: s)
  case 0
  then show ?case by (simp add: atk_thread_def)
next
  case (Suc fuel)
  show ?case
  proof (cases "atk_gameOver s \<or> quit (atk_reads s)")
    case True
    with Suc.prems show ?thesis by (auto simp: atk_thread_def budget_inv_def)
  next
    case False
    let ?s1 = "s\<lparr>atk_reads := Suc (atk_reads s)\<rparr>"
    obtain i' s' where r: "startAtk_batch quit rnd width psize 0 ?s1 = (i', s')"
      by (cases "startAtk_batch quit rnd width psize 0 ?s1")
    from False Suc.prems have "\<not> atk_gameOver ?s1" "0 < totalMissiles (atk_a ?s1)"
      "int (length (atk_missiles ?s1)) + totalMissiles (atk_a ?s1) = N"
      by (auto simp: budget_inv_def)
    from startAtk_batch_finite [OF this r] have "budget_inv N s'"
      by (auto simp: budget_inv_def)
    from Suc.IH [OF this] False r show ?thesis by simp
  qed
qed

lemma startAtk_loop_finite:
  "\<not> atk_gameOver s \<Longrightarrow> 0 < totalMissiles (atk_a s) \<Longrightarrow>
   int (length (atk_missiles s)) + totalMissiles (atk_a s) = N \<Longrightarrow>
   1 \<le> psize \<Longrightarrow> totalMissiles (atk_a s) < int fuel \<Longrightarrow>
   \<exists>s'. startAtk_loop fuel quit rnd width psize s = Atk_returned s' \<and> atk_gameOver s' \<and>
        ((\<forall>k. \<not> quit k) \<longrightarrow> int (length (atk_missiles s')) = N)"
proof (induction fuel arbitrary: s)
  case 0
  then show ?case by simp
next
  case (Suc fuel)
  show ?case
  proof (cases "quit (atk_reads s)")
    case True
    then show ?thesis by auto
  next
    case False
    let ?s1 = "s\<lparr>atk_reads := Suc (atk_reads s)\<rparr>"
    obtain i' s' where r: "startAtk_batch quit rnd width psize 0 ?s1 = (i', s')"
      by (cases "startAtk_batch quit rnd width psize 0 ?s1")
    from Suc.prems have p: "\<not> atk_gameOver ?s1" "0 < totalMissiles (atk_a ?s1)"
      "int (length (atk_missiles ?s1)) + totalMissiles (atk_a ?s1) = N"
      by auto
    have step: "startAtk_loop (Suc fuel) quit rnd width psize s = startAtk_loop fuel quit rnd width psize s'"
      using False Suc.prems(1) r by simp
    from Suc.prems obtain f where f: "fuel = Suc f" by (cases fuel) auto
    from startAtk_batch_finite [OF p r] Suc.prems(4)
    consider
      (ended) "atk_gameOver s'" "(\<forall>k. \<not> quit k) \<longrightarrow> int (length (atk_missiles s')) = N" |
      (going) "\<not> atk_gameOver s'" "0 < totalMissiles (atk_a s')"
        "int (length (atk_missiles s')) + totalMissiles (atk_a s') = N"
        "totalMissiles (atk_a s') < totalMissiles (atk_a s)"
      by auto
    then show ?thesis
    proof cases
      case ended
      then have "\<exists>t. startAtk_loop fuel quit rnd width psize s' = Atk_returned t \<and> atk_gameOver t \<and>
          ((\<forall>k. \<not> quit k) \<longrightarrow> int (length (atk_missiles t)) = N)"
        by (simp add: f)
      then show ?thesis unfolding step .
    next
      case going
      from going(4) Suc.prems(5) have "totalMissiles (atk_a s') < int fuel" by simp
      from Suc.IH [OF going(1,2,3) Suc.prems(4) this] show ?thesis unfolding step .
    qed
  qed
qed

text \<open>
  C3: with a budget \<open>N > 0\<close> the attacker has never created more than \<open>N\<close> missiles,
  whatever the width, the defender and the fuel; and in a terminal of positive width, its
  batch array allocated, its loop returns with \<open>gameOver\<close> set, having created exactly \<open>N\<close>
  missiles when the defender never sets the flag.
\<close>

theorem startAtk_budget:
  "0 < N \<Longrightarrow> totalMissiles a = N \<Longrightarrow>
   int (length (atk_missiles (atk_thread (startAtk fuel quit rnd calloc_ok width a flag)))) \<le> N \<and>
   (0 < width \<and> N < int fuel \<longrightarrow>
      (\<exists>s. startAtk fuel quit rnd True width a flag = Atk_returned s \<and> atk_gameOver s \<and>
           (\<not> flag \<and> (\<forall>k. \<not> quit k) \<longrightarrow> int (length (atk_missiles s)) = N)))"
proof (intro conjI impI)
  assume N: "0 < N" and a: "totalMissiles a = N"
  let ?s0 = "\<lparr>atk_gameOver = (if calloc_ok then flag else True), atk_a = a,
        atk_missiles = [], atk_reads = 0\<rparr>"
  from N a have "budget_inv N ?s0" by (simp add: budget_inv_def)
  from startAtk_loop_bound [OF this]
  show "int (length (atk_missiles (atk_thread (startAtk fuel quit rnd calloc_ok width a flag)))) \<le> N"
    by (simp add: startAtk_def budget_inv_def)
next
  assume N: "0 < N" and a: "totalMissiles a = N" and w: "0 < width \<and> N < int fuel"
  let ?s0 = "\<lparr>atk_gameOver = flag, atk_a = a, atk_missiles = [], atk_reads = 0\<rparr>"
  from w obtain f where f: "fuel = Suc f" using N by (cases fuel) auto
  show "\<exists>s. startAtk fuel quit rnd True width a flag = Atk_returned s \<and> atk_gameOver s \<and>
           (\<not> flag \<and> (\<forall>k. \<not> quit k) \<longrightarrow> int (length (atk_missiles s)) = N)"
  proof (cases flag)
    case True
    then show ?thesis by (simp add: startAtk_def f)
  next
    case False
    from w have "1 \<le> packetSize width" by (simp add: packetSize_pos)
    from startAtk_loop_finite [of ?s0 N "packetSize width" fuel quit rnd width] False N a w this
    show ?thesis by (simp add: startAtk_def)
  qed
qed

theorem startAtk_budget_witness:
  "startAtk 6 never rnd_zero True 12 (attacker demo_game) False =
     Atk_returned \<lparr>atk_gameOver = True,
        atk_a = \<lparr>a_name = Some ''Bob'', totalMissiles = 0\<rparr>,
        atk_missiles = replicate 5 \<lparr>m_x = 0, m_y = 2, m_c = CHR ''|''\<rparr>,
        atk_reads = 8\<rparr> \<and>
   int (length (atk_missiles (atk_thread (startAtk 6 never rnd_zero True 12 (attacker demo_game) False)))) \<le> 5"
proof -
  have e: "startAtk 6 never rnd_zero True 12 (attacker demo_game) False =
     Atk_returned \<lparr>atk_gameOver = True,
        atk_a = \<lparr>a_name = Some ''Bob'', totalMissiles = 0\<rparr>,
        atk_missiles = replicate 5 \<lparr>m_x = 0, m_y = 2, m_c = CHR ''|''\<rparr>,
        atk_reads = 8\<rparr>"
    by code_simp
  have n: "(0::int) < 5" by simp
  have t: "totalMissiles (attacker demo_game) = 5" by (simp add: demo_game_def)
  from startAtk_budget [OF n t, of 6 never rnd_zero True 12 False] e show ?thesis by simp
qed


subsection \<open>The budget line\<close>

lemma budget_line_fatal:
  "\<not> numeric str \<or> denotes str < 0 \<Longrightarrow> \<exists>msg. budget_line str = Inl (Fatal msg)"
  by (auto simp: budget_line_def strInt_correct)

lemma createGame_loop_skip:
  "[] \<notin> set lines \<Longrightarrow>
   createGame_loop line g lines = createGame_loop line g (non_comment lines)"
proof (induction lines arbitrary: line g)
  case Nil
  show ?case by (simp add: non_comment_def)
next
  case (Cons raw rest)
  then have ne: "raw \<noteq> []" and r: "[] \<notin> set rest" by auto
  note ih = Cons.IH [OF r, unfolded non_comment_def]
  show ?case
  proof (cases "hd raw = CHR ''#''")
    case True
    with ne ih show ?thesis by (simp add: non_comment_def)
  next
    case False
    with ne show ?thesis
      by (simp add: non_comment_def ih Let_def split: sum.split)
  qed
qed

lemma non_comment_elems:
  "[] \<notin> set lines \<Longrightarrow> raw \<in> set (non_comment lines) \<Longrightarrow> raw \<noteq> [] \<and> hd raw \<noteq> CHR ''#''"
  by (auto simp: non_comment_def)

lemma three_lines: "3 \<le> length xs \<Longrightarrow> \<exists>a b c r. xs = a # b # c # r"
  by (cases xs; cases "tl xs"; cases "tl (tl xs)") auto

lemma createGame_loop_budget:
  "[] \<notin> set lines \<Longrightarrow> 3 \<le> length (non_comment lines) \<Longrightarrow>
   \<exists>g' rest. (\<forall>raw \<in> set rest. raw \<noteq> [] \<and> hd raw \<noteq> CHR ''#'') \<and>
     length (non_comment lines) = 3 + length rest \<and>
     attacker g' = attacker g\<lparr>a_name := a_name (attacker g')\<rparr> \<and>
     createGame_loop 0 g lines =
       (case budget_line (budget_text lines) of
          Inl e \<Rightarrow> Inl e
        | Inr v \<Rightarrow> createGame_loop 3 (g'\<lparr>attacker := (attacker g')\<lparr>totalMissiles := v\<rparr>\<rparr>) rest)"
proof -
  assume ne: "[] \<notin> set lines" and l: "3 \<le> length (non_comment lines)"
  from three_lines [OF l] obtain a b c r where nc: "non_comment lines = a # b # c # r" by blast
  from non_comment_elems [OF ne, of a] non_comment_elems [OF ne, of b]
    non_comment_elems [OF ne, of c] nc
  have abc: "a \<noteq> []" "hd a \<noteq> CHR ''#''" "b \<noteq> []" "hd b \<noteq> CHR ''#''" "c \<noteq> []" "hd c \<noteq> CHR ''#''"
    by simp_all
  have rr: "\<forall>raw \<in> set r. raw \<noteq> [] \<and> hd raw \<noteq> CHR ''#''"
    using non_comment_elems [OF ne] nc by simp
  have bt: "budget_text lines = butlast (c_string c)" by (simp add: budget_text_def nc)
  let ?g' = "g\<lparr>defender := (defender g)\<lparr>d_name := Some (take 80 (butlast (c_string a)))\<rparr>,
               attacker := (attacker g)\<lparr>a_name := Some (take 80 (butlast (c_string b)))\<rparr>\<rparr>"
  have "createGame_loop 0 g lines = createGame_loop 0 g (a # b # c # r)"
    using createGame_loop_skip [OF ne] nc by simp
  also have "\<dots> = (case budget_line (butlast (c_string c)) of
          Inl e \<Rightarrow> Inl e
        | Inr v \<Rightarrow> createGame_loop 3 (?g'\<lparr>attacker := (attacker ?g')\<lparr>totalMissiles := v\<rparr>\<rparr>) r)"
    using abc by (simp add: Let_def numeral_3_eq_3 split: sum.split)
  finally have "createGame_loop 0 g lines = (case budget_line (budget_text lines) of
          Inl e \<Rightarrow> Inl e
        | Inr v \<Rightarrow> createGame_loop 3 (?g'\<lparr>attacker := (attacker ?g')\<lparr>totalMissiles := v\<rparr>\<rparr>) r)"
    by (simp only: bt)
  moreover have "attacker ?g' = attacker g\<lparr>a_name := a_name (attacker ?g')\<rparr>" by simp
  moreover have "length (non_comment lines) = 3 + length r" by (simp add: nc)
  ultimately show ?thesis using rr by blast
qed

lemma layout_tokens_attacker: "attacker (foldl layout_token g toks) = attacker g"
proof (induction toks arbitrary: g)
  case Nil
  show ?case by simp
next
  case (Cons tok toks)
  have "attacker (layout_token g tok) = attacker g"
    by (simp add: layout_token_def split: option.split)
  with Cons.IH [of "layout_token g tok"] show ?case by simp
qed

lemma createGame_loop_layout:
  "3 \<le> line \<Longrightarrow> \<forall>raw \<in> set rest. raw \<noteq> [] \<and> hd raw \<noteq> CHR ''#'' \<Longrightarrow>
   \<exists>g'. createGame_loop line g rest = Inr (line + length rest, g') \<and> attacker g' = attacker g"
proof (induction rest arbitrary: line g)
  case Nil
  show ?case by simp
next
  case (Cons raw rest)
  from Cons.prems have raw: "raw \<noteq> []" "hd raw \<noteq> CHR ''#''"
    and r: "\<forall>raw \<in> set rest. raw \<noteq> [] \<and> hd raw \<noteq> CHR ''#''" by simp_all
  from Cons.prems have l: "line \<noteq> 0" "line \<noteq> 1" "line \<noteq> 2" "3 \<le> Suc line" by simp_all
  have "createGame_loop line g (raw # rest) =
      createGame_loop (Suc line)
        (foldl layout_token g (strtok_all [] (butlast (c_string raw)))) rest"
    using raw l by (simp add: Let_def)
  with Cons.IH [OF l(4) r, of "foldl layout_token g (strtok_all [] (butlast (c_string raw)))"]
  show ?case by (auto simp: layout_tokens_attacker)
qed

lemma createGame_fatal_budget:
  "[] \<notin> set lines \<Longrightarrow> 3 \<le> length (non_comment lines) \<Longrightarrow>
   budget_line (budget_text lines) = Inl e \<Longrightarrow>
   createGame d0 a0 filename (Some lines) = Inl e"
proof -
  assume ne: "[] \<notin> set lines" and l: "3 \<le> length (non_comment lines)"
    and b: "budget_line (budget_text lines) = Inl e"
  let ?g0 = "\<lparr>defender = d0\<lparr>d_name := None\<rparr>, attacker = a0\<lparr>a_name := None\<rparr>,
                   layout = [], tallest = 0, gameOver = False\<rparr>"
  from createGame_loop_budget [OF ne l, of ?g0] b
  have "createGame_loop 0 ?g0 lines = Inl e" by auto
  then show ?thesis by (simp add: createGame_def)
qed

lemma createGame_budget:
  "[] \<notin> set lines \<Longrightarrow> 4 \<le> length (non_comment lines) \<Longrightarrow>
   budget_line (budget_text lines) = Inr v \<Longrightarrow>
   \<exists>g. createGame d0 a0 filename (Some lines) = Inr g \<and> totalMissiles (attacker g) = v"
proof -
  assume ne: "[] \<notin> set lines" and l: "4 \<le> length (non_comment lines)"
    and b: "budget_line (budget_text lines) = Inr v"
  let ?g0 = "\<lparr>defender = d0\<lparr>d_name := None\<rparr>, attacker = a0\<lparr>a_name := None\<rparr>,
                   layout = [], tallest = 0, gameOver = False\<rparr>"
  from l have l3: "3 \<le> length (non_comment lines)" by simp
  from createGame_loop_budget [OF ne l3, of ?g0] b
  obtain g' rest where rest: "\<forall>raw \<in> set rest. raw \<noteq> [] \<and> hd raw \<noteq> CHR ''#''"
    and len: "length (non_comment lines) = 3 + length rest"
    and eq: "createGame_loop 0 ?g0 lines =
       createGame_loop 3 (g'\<lparr>attacker := (attacker g')\<lparr>totalMissiles := v\<rparr>\<rparr>) rest"
    by auto
  from createGame_loop_layout [OF order_refl rest, of "g'\<lparr>attacker := (attacker g')\<lparr>totalMissiles := v\<rparr>\<rparr>"]
  obtain g where g: "createGame_loop 3 (g'\<lparr>attacker := (attacker g')\<lparr>totalMissiles := v\<rparr>\<rparr>) rest =
      Inr (3 + length rest, g)" and a: "attacker g = (attacker g')\<lparr>totalMissiles := v\<rparr>"
    by auto
  from l len have "\<not> 3 + length rest < 4" by linarith
  with eq g have "createGame d0 a0 filename (Some lines) = Inr g"
    by (simp add: createGame_def)
  with a show ?thesis by simp
qed

lemma startAtk_batch_unlimited:
  "totalMissiles (atk_a s) \<le> 0 \<Longrightarrow> startAtk_batch quit rnd width psize i s = (i', s') \<Longrightarrow>
   atk_a s' = atk_a s \<and> atk_reads s \<le> atk_reads s' \<and>
   ((\<forall>k. \<not> quit k) \<and> \<not> atk_gameOver s \<longrightarrow>
      \<not> atk_gameOver s' \<and>
      int (length (atk_missiles s')) = int (length (atk_missiles s)) + max 0 (psize - i))"
proof (induction quit rnd width psize i s rule: startAtk_batch.induct)
  case (1 quit rnd width psize i s)
  note eq = startAtk_batch.simps [of quit rnd width psize i s]
  show ?case
  proof (cases "i < psize")
    case False
    with "1.prems" show ?thesis by (simp add: eq)
  next
    case slot: True
    show ?thesis
    proof (cases "atk_gameOver s \<or> quit (atk_reads s)")
      case True
      with slot "1.prems" show ?thesis by (auto simp: eq)
    next
      case False
      let ?s1 = "s\<lparr>atk_missiles := atk_missiles s @
                  [\<lparr>m_x = c_mod (rnd (length (atk_missiles s))) width, m_y = 2, m_c = CHR ''|''\<rparr>],
                atk_reads := Suc (atk_reads s)\<rparr>"
      from "1.prems" have nb: "\<not> 0 < totalMissiles (atk_a s)" by simp
      from slot False nb "1.prems"
      have r: "startAtk_batch quit rnd width psize (i + 1) ?s1 = (i', s')"
        by (simp add: eq)
      have t: "totalMissiles (atk_a ?s1) \<le> 0" using "1.prems" by simp
      from "1.IH"(2) [OF slot False nb t r] slot False show ?thesis by auto
    qed
  qed
qed

lemma startAtk_loop_unlimited:
  "totalMissiles (atk_a s) \<le> 0 \<Longrightarrow>
   atk_a (atk_thread (startAtk_loop fuel quit rnd width psize s)) = atk_a s \<and>
   ((\<forall>k. \<not> quit k) \<and> \<not> atk_gameOver s \<longrightarrow>
      (\<exists>s'. startAtk_loop fuel quit rnd width psize s = Atk_running s' \<and>
            int (length (atk_missiles s')) =
              int (length (atk_missiles s)) + int fuel * max 0 psize))"
proof (induction fuel arbitrary: s)
  case 0
  show ?case by (simp add: atk_thread_def)
next
  case (Suc fuel)
  show ?case
  proof (cases "atk_gameOver s \<or> quit (atk_reads s)")
    case True
    then show ?thesis by (auto simp: atk_thread_def)
  next
    case False
    let ?s1 = "s\<lparr>atk_reads := Suc (atk_reads s)\<rparr>"
    obtain i' s' where r: "startAtk_batch quit rnd width psize 0 ?s1 = (i', s')"
      by (cases "startAtk_batch quit rnd width psize 0 ?s1")
    have step: "startAtk_loop (Suc fuel) quit rnd width psize s =
        startAtk_loop fuel quit rnd width psize s'"
      using False r by simp
    from Suc.prems have t: "totalMissiles (atk_a ?s1) \<le> 0" by simp
    from startAtk_batch_unlimited [OF t r]
    have a: "atk_a s' = atk_a s"
      and n: "(\<forall>k. \<not> quit k) \<Longrightarrow> \<not> atk_gameOver s' \<and>
          int (length (atk_missiles s')) = int (length (atk_missiles s)) + max 0 psize"
      using False by auto
    from a Suc.prems have t': "totalMissiles (atk_a s') \<le> 0" by simp
    from Suc.IH [OF t'] a
    have 1: "atk_a (atk_thread (startAtk_loop fuel quit rnd width psize s')) = atk_a s" by simp
    have 2: "\<exists>t. startAtk_loop fuel quit rnd width psize s' = Atk_running t \<and>
            int (length (atk_missiles t)) =
              int (length (atk_missiles s)) + int (Suc fuel) * max 0 psize"
      if q: "(\<forall>k. \<not> quit k) \<and> \<not> atk_gameOver s"
    proof -
      from q n have g: "\<not> atk_gameOver s'"
        and l: "int (length (atk_missiles s')) = int (length (atk_missiles s)) + max 0 psize"
        by simp_all
      from Suc.IH [OF t'] q g obtain t where
        "startAtk_loop fuel quit rnd width psize s' = Atk_running t"
        "int (length (atk_missiles t)) = int (length (atk_missiles s')) + int fuel * max 0 psize"
        by blast
      with l show ?thesis by (simp add: algebra_simps)
    qed
    from 1 2 show ?thesis unfolding step by blast
  qed
qed

lemma startAtk_loop_quit:
  "\<forall>k\<ge>k0. quit k \<Longrightarrow> 1 \<le> fuel \<Longrightarrow> k0 < fuel + atk_reads s \<Longrightarrow>
   totalMissiles (atk_a s) \<le> 0 \<Longrightarrow>
   \<exists>s'. startAtk_loop fuel quit rnd width psize s = Atk_returned s' \<and> atk_gameOver s'"
proof (induction fuel arbitrary: s)
  case 0
  then show ?case by simp
next
  case (Suc fuel)
  show ?case
  proof (cases "atk_gameOver s \<or> quit (atk_reads s)")
    case True
    then show ?thesis by auto
  next
    case False
    let ?s1 = "s\<lparr>atk_reads := Suc (atk_reads s)\<rparr>"
    obtain i' s' where r: "startAtk_batch quit rnd width psize 0 ?s1 = (i', s')"
      by (cases "startAtk_batch quit rnd width psize 0 ?s1")
    have step: "startAtk_loop (Suc fuel) quit rnd width psize s =
        startAtk_loop fuel quit rnd width psize s'"
      using False r by simp
    from Suc.prems have t: "totalMissiles (atk_a ?s1) \<le> 0" by simp
    from startAtk_batch_unlimited [OF t r]
    have a: "atk_a s' = atk_a s" and rd: "Suc (atk_reads s) \<le> atk_reads s'" by auto
    from False Suc.prems(1) have "atk_reads s < k0" by (meson not_le_imp_less)
    with Suc.prems(3) rd have f: "1 \<le> fuel" "k0 < fuel + atk_reads s'" by simp_all
    from a Suc.prems(4) have t': "totalMissiles (atk_a s') \<le> 0" by simp
    from Suc.IH [OF Suc.prems(1) f t'] show ?thesis unfolding step .
  qed
qed

lemma budget_line_zero: "numeric str \<Longrightarrow> denotes str = 0 \<Longrightarrow> budget_line str = Inr (- 1)"
  by (simp add: budget_line_def strInt_correct INT_MAX_def)

lemma main_attacker:
  "createGame d0 a0 (argv ! 1) (fs (argv ! 1)) = Inr g \<Longrightarrow>
   main argv fs d0 a0 height width = Simulating evs g' \<Longrightarrow> attacker g' = attacker g"
  by (auto simp: main_def initDisplay_shield_def split: if_splits)

text \<open>
  C8: a configuration whose budget line is not numeric or denotes a negative number ends
  the process with the failure status and one message on the error stream, before
  \<^verbatim>\<open>initscr\<close>. A configuration whose budget line denotes 0 is accepted with a layout, and
  \<^verbatim>\<open>createGame\<close> stores \<open>-1\<close> in the attacker of its game, which is the attacker \<^verbatim>\<open>main\<close> starts
  the simulation with. On that attacker the spawn loop never changes the budget: while
  the defender does not set the flag the loop does not return and has created a full batch
  per pass, and once the defender has set it the loop returns, the budget still \<open>-1\<close>.
\<close>

theorem budget_line_rules:
  "length argv = 2 \<Longrightarrow> fs (argv ! 1) = Some lines \<Longrightarrow> [] \<notin> set lines \<Longrightarrow>
   (3 \<le> length (non_comment lines) \<and>
    (\<not> numeric (budget_text lines) \<or> denotes (budget_text lines) < 0) \<longrightarrow>
      (\<exists>msg. main argv fs d0 a0 height width = Exited EXIT_FAILURE [Stderr msg])) \<and>
   (4 \<le> length (non_comment lines) \<and> numeric (budget_text lines) \<and>
    denotes (budget_text lines) = 0 \<longrightarrow>
      (\<exists>g. createGame d0 a0 (argv ! 1) (fs (argv ! 1)) = Inr g \<and>
           totalMissiles (attacker g) = - 1 \<and>
           (\<forall>evs g'. main argv fs d0 a0 height width = Simulating evs g' \<longrightarrow>
              attacker g' = attacker g) \<and>
           atk_a (atk_thread (startAtk fuel quit rnd calloc_ok width (attacker g) flag)) =
             attacker g \<and>
           ((\<forall>k. \<not> quit k) \<and> \<not> flag \<longrightarrow>
              (\<exists>s. startAtk fuel quit rnd True width (attacker g) flag = Atk_running s \<and>
                   int (length (atk_missiles s)) = int fuel * max 0 (packetSize width))) \<and>
           ((\<forall>k\<ge>k0. quit k) \<and> k0 < fuel \<longrightarrow>
              (\<exists>s. startAtk fuel quit rnd calloc_ok width (attacker g) flag = Atk_returned s \<and>
                   atk_gameOver s \<and> atk_a s = attacker g))))"
proof (intro conjI impI)
  assume argv: "length argv = 2" and fs: "fs (argv ! 1) = Some lines" and ne: "[] \<notin> set lines"
  assume h: "3 \<le> length (non_comment lines) \<and>
    (\<not> numeric (budget_text lines) \<or> denotes (budget_text lines) < 0)"
  then obtain msg where "budget_line (budget_text lines) = Inl (Fatal msg)"
    using budget_line_fatal by blast
  with h ne have "createGame d0 a0 (argv ! 1) (Some lines) = Inl (Fatal msg)"
    by (intro createGame_fatal_budget) simp_all
  with argv fs have "main argv fs d0 a0 height width = Exited EXIT_FAILURE [Stderr msg]"
    by (simp add: main_def fatal_event_def)
  then show "\<exists>msg. main argv fs d0 a0 height width = Exited EXIT_FAILURE [Stderr msg]" ..
next
  assume argv: "length argv = 2" and fs: "fs (argv ! 1) = Some lines" and ne: "[] \<notin> set lines"
  assume h: "4 \<le> length (non_comment lines) \<and> numeric (budget_text lines) \<and>
    denotes (budget_text lines) = 0"
  then have "budget_line (budget_text lines) = Inr (- 1)" by (simp add: budget_line_zero)
  with h ne obtain g where g: "createGame d0 a0 (argv ! 1) (Some lines) = Inr g"
    and t: "totalMissiles (attacker g) = - 1"
    using createGame_budget [of lines "- 1" d0 a0 "argv ! 1"] by blast
  from g fs have g': "createGame d0 a0 (argv ! 1) (fs (argv ! 1)) = Inr g" by simp
  let ?s0 = "\<lparr>atk_gameOver = (if calloc_ok then flag else True), atk_a = attacker g,
        atk_missiles = [], atk_reads = 0\<rparr>"
  let ?s1 = "\<lparr>atk_gameOver = flag, atk_a = attacker g, atk_missiles = [], atk_reads = 0\<rparr>"
  have t0: "totalMissiles (atk_a ?s0) \<le> 0" and t1: "totalMissiles (atk_a ?s1) \<le> 0"
    using t by simp_all
  have 1: "\<forall>evs g'. main argv fs d0 a0 height width = Simulating evs g' \<longrightarrow>
      attacker g' = attacker g"
    using main_attacker [of d0 a0 argv fs g, OF g'] by blast
  have 2: "atk_a (atk_thread (startAtk fuel quit rnd calloc_ok width (attacker g) flag)) =
      attacker g"
    using startAtk_loop_unlimited [OF t0, of fuel quit rnd width "packetSize width"]
    by (simp add: startAtk_def)
  have 3: "(\<forall>k. \<not> quit k) \<and> \<not> flag \<longrightarrow>
      (\<exists>s. startAtk fuel quit rnd True width (attacker g) flag = Atk_running s \<and>
           int (length (atk_missiles s)) = int fuel * max 0 (packetSize width))"
    using startAtk_loop_unlimited [OF t1, of fuel quit rnd width "packetSize width"]
    by (simp add: startAtk_def)
  have 4: "(\<forall>k\<ge>k0. quit k) \<and> k0 < fuel \<longrightarrow>
      (\<exists>s. startAtk fuel quit rnd calloc_ok width (attacker g) flag = Atk_returned s \<and>
           atk_gameOver s \<and> atk_a s = attacker g)"
  proof
    assume q: "(\<forall>k\<ge>k0. quit k) \<and> k0 < fuel"
    then have f: "1 \<le> fuel" "k0 < fuel + atk_reads ?s0" by simp_all
    from q have "\<forall>k\<ge>k0. quit k" by simp
    from startAtk_loop_quit [OF this f t0, of rnd width "packetSize width"]
    obtain s where s: "startAtk fuel quit rnd calloc_ok width (attacker g) flag = Atk_returned s"
      and o: "atk_gameOver s" by (auto simp: startAtk_def)
    from 2 s have "atk_a s = attacker g" by (simp add: atk_thread_def)
    with s o show "\<exists>s. startAtk fuel quit rnd calloc_ok width (attacker g) flag = Atk_returned s \<and>
           atk_gameOver s \<and> atk_a s = attacker g" by blast
  qed
  from g' t 1 2 3 4 show "\<exists>g. createGame d0 a0 (argv ! 1) (fs (argv ! 1)) = Inr g \<and>
           totalMissiles (attacker g) = - 1 \<and>
           (\<forall>evs g'. main argv fs d0 a0 height width = Simulating evs g' \<longrightarrow>
              attacker g' = attacker g) \<and>
           atk_a (atk_thread (startAtk fuel quit rnd calloc_ok width (attacker g) flag)) =
             attacker g \<and>
           ((\<forall>k. \<not> quit k) \<and> \<not> flag \<longrightarrow>
              (\<exists>s. startAtk fuel quit rnd True width (attacker g) flag = Atk_running s \<and>
                   int (length (atk_missiles s)) = int fuel * max 0 (packetSize width))) \<and>
           ((\<forall>k\<ge>k0. quit k) \<and> k0 < fuel \<longrightarrow>
              (\<exists>s. startAtk fuel quit rnd calloc_ok width (attacker g) flag = Atk_returned s \<and>
                   atk_gameOver s \<and> atk_a s = attacker g))"
    by (intro exI [of _ g] conjI)
qed

theorem budget_line_rules_witness:
  "main [''threads'', ''neg.cfg''] demo_fs fresh_d fresh_a 7 12 =
     Exited EXIT_FAILURE [Stderr ''Error: missile specification < 0.\<newline>''] \<and>
   createGame fresh_d fresh_a ''low.cfg'' (demo_fs ''low.cfg'') =
     Inr (low_game\<lparr>defender := \<lparr>d_name = Some ''Alice'', shieldY = 0, shieldX = 0\<rparr>\<rparr>) \<and>
   main [''threads'', ''low.cfg''] demo_fs fresh_d fresh_a 7 12 =
     Simulating [Initscr, Cbreak, Noecho, Keypad, Srand, InitDisplay]
       (low_game\<lparr>defender := \<lparr>d_name = Some ''Alice'', shieldY = 3, shieldX = 4\<rparr>\<rparr>) \<and>
   attacker low_game = endless \<and>
   atk_a (atk_thread (startAtk 3 never rnd_zero True 12 endless False)) = endless \<and>
   (\<exists>s. startAtk 3 never rnd_zero True 12 endless False = Atk_running s \<and>
        int (length (atk_missiles s)) = 9) \<and>
   (\<exists>s. startAtk 3 from_start rnd_zero True 12 endless False = Atk_returned s \<and>
        atk_gameOver s \<and> atk_a s = endless)"
proof -
  have m: "main [''threads'', ''neg.cfg''] demo_fs fresh_d fresh_a 7 12 =
     Exited EXIT_FAILURE [Stderr ''Error: missile specification < 0.\<newline>'']"
    by code_simp
  have c: "createGame fresh_d fresh_a ''low.cfg'' (demo_fs ''low.cfg'') =
     Inr (low_game\<lparr>defender := \<lparr>d_name = Some ''Alice'', shieldY = 0, shieldX = 0\<rparr>\<rparr>)"
    by code_simp
  have s: "main [''threads'', ''low.cfg''] demo_fs fresh_d fresh_a 7 12 =
     Simulating [Initscr, Cbreak, Noecho, Keypad, Srand, InitDisplay]
       (low_game\<lparr>defender := \<lparr>d_name = Some ''Alice'', shieldY = 3, shieldX = 4\<rparr>\<rparr>)"
    by code_simp
  have e: "attacker low_game = endless" by (simp add: low_game_def endless_def)
  have l: "length [''threads'', ''neg.cfg''] = 2" "length [''threads'', ''low.cfg''] = 2"
    by simp_all
  have fn: "demo_fs ([''threads'', ''neg.cfg''] ! 1) = Some neg_file"
    and fl: "demo_fs ([''threads'', ''low.cfg''] ! 1) = Some low_file"
    by (simp_all add: demo_fs_def)
  have nn: "[] \<notin> set neg_file" and nl: "[] \<notin> set low_file"
    by (simp_all add: neg_file_def low_file_def)
  have hn: "3 \<le> length (non_comment neg_file) \<and>
      (\<not> numeric (budget_text neg_file) \<or> denotes (budget_text neg_file) < 0)"
    by (simp add: neg_file_def non_comment_def budget_text_def c_string_def denotes_def
        digits_value_def)
  have hl: "4 \<le> length (non_comment low_file) \<and> numeric (budget_text low_file) \<and>
      denotes (budget_text low_file) = 0"
    by (simp add: low_file_def non_comment_def budget_text_def c_string_def numeric_def
        is_digit_def denotes_def digits_value_def)
  have n: "(\<forall>k. \<not> never k) \<and> \<not> False" by (simp add: never_def)
  have q: "(\<forall>k\<ge>0. from_start k) \<and> 0 < (3::nat)" by (simp add: from_start_def)
  have p: "packetSize 12 = 3" by (simp add: packetSize_def c_div_def)
  note a = budget_line_rules [of "[''threads'', ''neg.cfg'']" demo_fs neg_file
      fresh_d fresh_a 7 12 3 never rnd_zero True False 0, OF l(1) fn nn]
  note b = budget_line_rules [of "[''threads'', ''low.cfg'']" demo_fs low_file
      fresh_d fresh_a 7 12 3 never rnd_zero True False 0, OF l(2) fl nl]
  note d = budget_line_rules [of "[''threads'', ''low.cfg'']" demo_fs low_file
      fresh_d fresh_a 7 12 3 from_start rnd_zero True False 0, OF l(2) fl nl]
  note a1 = mp [OF conjunct1 [OF a] hn]
  note b2 = mp [OF conjunct2 [OF b] hl]
  note d2 = mp [OF conjunct2 [OF d] hl]
  from b2 obtain g where
    g: "createGame fresh_d fresh_a ([''threads'', ''low.cfg''] ! 1)
          (demo_fs ([''threads'', ''low.cfg''] ! 1)) = Inr g"
    and t: "totalMissiles (attacker g) = - 1"
    and k: "atk_a (atk_thread (startAtk 3 never rnd_zero True 12 (attacker g) False)) = attacker g"
    and r: "(\<forall>k. \<not> never k) \<and> \<not> False \<longrightarrow>
       (\<exists>s. startAtk 3 never rnd_zero True 12 (attacker g) False = Atk_running s \<and>
            int (length (atk_missiles s)) = int 3 * max 0 (packetSize 12))"
    by (elim exE conjE) (rule that; assumption)
  from g c have "g = low_game\<lparr>defender := \<lparr>d_name = Some ''Alice'', shieldY = 0, shieldX = 0\<rparr>\<rparr>"
    by simp
  then have ga: "attacker g = endless" using e by simp
  from k ga have 2: "atk_a (atk_thread (startAtk 3 never rnd_zero True 12 endless False)) = endless"
    by simp
  from r n p ga have 3: "\<exists>s. startAtk 3 never rnd_zero True 12 endless False = Atk_running s \<and>
        int (length (atk_missiles s)) = 9" by simp
  from d2 obtain g2 where
    g2: "createGame fresh_d fresh_a ([''threads'', ''low.cfg''] ! 1)
          (demo_fs ([''threads'', ''low.cfg''] ! 1)) = Inr g2"
    and r2: "(\<forall>k\<ge>0. from_start k) \<and> 0 < (3::nat) \<longrightarrow>
       (\<exists>s. startAtk 3 from_start rnd_zero True 12 (attacker g2) False = Atk_returned s \<and>
            atk_gameOver s \<and> atk_a s = attacker g2)"
    by (elim exE conjE) (rule that; assumption)
  from g2 c have "g2 = low_game\<lparr>defender := \<lparr>d_name = Some ''Alice'', shieldY = 0, shieldX = 0\<rparr>\<rparr>"
    by simp
  then have g2a: "attacker g2 = endless" using e by simp
  from r2 q g2a have 4: "\<exists>s. startAtk 3 from_start rnd_zero True 12 endless False = Atk_returned s \<and>
        atk_gameOver s \<and> atk_a s = endless" by simp
  from a1 m c s e 2 3 4 show ?thesis by (intro conjI)
qed

subsection \<open>The budget \<open>-0\<close>\<close>

lemma strInt_minus:
  "list_all is_digit ds \<Longrightarrow> ds \<noteq> [] \<Longrightarrow> digits_value ds \<le> INT_MAX \<Longrightarrow>
   strInt (CHR ''-'' # ds) = Some (- digits_value ds)"
proof -
  assume d: "list_all is_digit ds" "ds \<noteq> []" and v: "digits_value ds \<le> INT_MAX"
  from d have n: "numeric (CHR ''-'' # ds)" by (simp add: numeric_def)
  have e: "denotes (CHR ''-'' # ds) = - digits_value ds" by (simp add: denotes_def)
  from digits_value_nonneg [OF d(1)] v have "\<bar>- digits_value ds\<bar> \<le> INT_MAX" by simp
  with n e show ?thesis by (simp add: strInt_correct)
qed

lemma budget_line_minus_zero: "budget_line ''-0'' = Inr (- 1)"
  by (simp add: budget_line_def strInt_correct numeric_def denotes_def is_digit_def
      digits_value_def INT_MAX_def)

text \<open>
  C10: \<^verbatim>\<open>strInt\<close> accepts a minus sign followed by digits (of a value up to \<^verbatim>\<open>INT_MAX\<close>) and
  returns the negated value, so \<open>-0\<close> parses to 0; the budget line \<open>-0\<close> is therefore not
  refused but stored as \<open>-1\<close>, and a configuration with that budget line and a layout is
  accepted and attacked without limit.
\<close>

theorem minus_zero_accepted:
  "(list_all is_digit ds \<and> ds \<noteq> [] \<and> digits_value ds \<le> INT_MAX \<longrightarrow>
      strInt (CHR ''-'' # ds) = Some (- digits_value ds)) \<and>
   strInt ''-0'' = Some 0 \<and>
   budget_line ''-0'' = Inr (- 1) \<and>
   ([] \<notin> set lines \<and> 4 \<le> length (non_comment lines) \<and> budget_text lines = ''-0'' \<longrightarrow>
      (\<exists>g. createGame d0 a0 filename (Some lines) = Inr g \<and>
           totalMissiles (attacker g) = - 1 \<and>
           ((\<forall>k. \<not> quit k) \<longrightarrow>
              (\<exists>s. startAtk fuel quit rnd True width (attacker g) False = Atk_running s \<and>
                   int (length (atk_missiles s)) = int fuel * max 0 (packetSize width)))))"
proof (intro conjI impI)
  assume "list_all is_digit ds \<and> ds \<noteq> [] \<and> digits_value ds \<le> INT_MAX"
  then show "strInt (CHR ''-'' # ds) = Some (- digits_value ds)" by (simp add: strInt_minus)
next
  show "strInt ''-0'' = Some 0"
    by (simp add: strInt_correct numeric_def denotes_def is_digit_def digits_value_def INT_MAX_def)
next
  show "budget_line ''-0'' = Inr (- 1)" by (rule budget_line_minus_zero)
next
  assume h: "[] \<notin> set lines \<and> 4 \<le> length (non_comment lines) \<and> budget_text lines = ''-0''"
  then have "budget_line (budget_text lines) = Inr (- 1)" by (simp add: budget_line_minus_zero)
  with h obtain g where g: "createGame d0 a0 filename (Some lines) = Inr g"
    and t: "totalMissiles (attacker g) = - 1"
    using createGame_budget [of lines "- 1" d0 a0 filename] by blast
  let ?s0 = "\<lparr>atk_gameOver = False, atk_a = attacker g, atk_missiles = [], atk_reads = 0\<rparr>"
  have "totalMissiles (atk_a ?s0) \<le> 0" using t by simp
  from startAtk_loop_unlimited [OF this, of fuel quit rnd width "packetSize width"]
  have "(\<forall>k. \<not> quit k) \<longrightarrow>
      (\<exists>s. startAtk fuel quit rnd True width (attacker g) False = Atk_running s \<and>
           int (length (atk_missiles s)) = int fuel * max 0 (packetSize width))"
    by (simp add: startAtk_def)
  with g t show "\<exists>g. createGame d0 a0 filename (Some lines) = Inr g \<and>
           totalMissiles (attacker g) = - 1 \<and>
           ((\<forall>k. \<not> quit k) \<longrightarrow>
              (\<exists>s. startAtk fuel quit rnd True width (attacker g) False = Atk_running s \<and>
                   int (length (atk_missiles s)) = int fuel * max 0 (packetSize width)))"
    by blast
qed

theorem minus_zero_accepted_witness:
  "strInt ''-12'' = Some (- 12) \<and>
   createGame fresh_d fresh_a ''minus0.cfg'' (Some minus_zero_file) =
     Inr (demo_game\<lparr>attacker := endless\<rparr>) \<and>
   (\<exists>s. startAtk 3 never rnd_zero True 12 endless False = Atk_running s \<and>
        int (length (atk_missiles s)) = 9)"
proof -
  have c: "createGame fresh_d fresh_a ''minus0.cfg'' (Some minus_zero_file) =
     Inr (demo_game\<lparr>attacker := endless\<rparr>)"
    by code_simp
  have d: "list_all is_digit ''12'' \<and> ''12'' \<noteq> [] \<and> digits_value ''12'' \<le> INT_MAX"
    by (simp add: is_digit_def digits_value_def INT_MAX_def)
  have v: "digits_value ''12'' = 12" by (simp add: digits_value_def)
  have h: "[] \<notin> set minus_zero_file \<and> 4 \<le> length (non_comment minus_zero_file) \<and>
      budget_text minus_zero_file = ''-0''"
    by (simp add: minus_zero_file_def non_comment_def budget_text_def c_string_def)
  have n: "\<forall>k. \<not> never k" by (simp add: never_def)
  have p: "packetSize 12 = 3" by (simp add: packetSize_def c_div_def)
  note a = minus_zero_accepted [of "''12''" minus_zero_file fresh_d fresh_a "''minus0.cfg''"
      never 3 rnd_zero 12]
  from a d v have 1: "strInt ''-12'' = Some (- 12)" by simp
  from a h obtain g where g: "createGame fresh_d fresh_a ''minus0.cfg'' (Some minus_zero_file) = Inr g"
    and r: "(\<forall>k. \<not> never k) \<longrightarrow>
       (\<exists>s. startAtk 3 never rnd_zero True 12 (attacker g) False = Atk_running s \<and>
            int (length (atk_missiles s)) = int 3 * max 0 (packetSize 12))"
    by blast
  from g c have "g = demo_game\<lparr>attacker := endless\<rparr>" by simp
  then have "attacker g = endless" by simp
  with r n p have 3: "\<exists>s. startAtk 3 never rnd_zero True 12 endless False = Atk_running s \<and>
        int (length (atk_missiles s)) = 9" by simp
  from 1 c 3 show ?thesis by blast
qed


subsection \<open>The erosion of a column\<close>

text \<open>
  A pass of a missile leaves the length of the layout and \<open>tallest\<close> alone, never raises
  a column, and never takes a column that is at least 2 high below 2; a hit on a column
  of height 2 explodes the missile and leaves the layout as it is. A column lower than 2
  is lowered by a hit, since line 436 compares its height with 2 by \<^verbatim>\<open>!=\<close>. No column
  is higher than \<open>tallest\<close> after \<^verbatim>\<open>createGame\<close>, nor after any pass of a missile.
\<close>

lemma low_file_game:
  "main [''threads'', ''low.cfg''] demo_fs fresh_d fresh_a 7 50 =
     Simulating [Initscr, Cbreak, Noecho, Keypad, Srand, InitDisplay] low_game"
  by code_simp

lemma dec_nth: "i < length xs \<Longrightarrow> xs[k := xs ! k - 1] ! i \<le> (xs ! i :: int)"
  by (cases "k = i") simp_all

lemma dec_floor:
  "i < length xs \<Longrightarrow> xs ! k \<noteq> 2 \<Longrightarrow> 2 \<le> (xs ! i :: int) \<Longrightarrow> 2 \<le> xs[k := xs ! k - 1] ! i"
  by (cases "k = i") auto

lemma missile_tick_game:
  "game (missile_tick height f) = game f \<or>
   (layout (game f) ! nat (m_x (missile f)) \<noteq> 2 \<and>
    game (missile_tick height f) =
      (game f)\<lparr>layout := (layout (game f))
         [nat (m_x (missile f)) := layout (game f) ! nat (m_x (missile f)) - 1]\<rparr>)"
  by (simp add: missile_tick_def Let_def)

lemma missile_tick_layout:
  "length (layout (game (missile_tick height f))) = length (layout (game f)) \<and>
   tallest (game (missile_tick height f)) = tallest (game f) \<and>
   (\<forall>i<length (layout (game f)).
      layout (game (missile_tick height f)) ! i \<le> layout (game f) ! i \<and>
      (2 \<le> layout (game f) ! i \<longrightarrow> 2 \<le> layout (game (missile_tick height f)) ! i))"
  using missile_tick_game [of height f] by (auto simp: dec_nth dec_floor)

lemma missile_tick_floor:
  "0 \<le> m_x (missile f) \<Longrightarrow> m_x (missile f) < game_size (game f) \<Longrightarrow>
   layout (game f) ! nat (m_x (missile f)) = 2 \<Longrightarrow> m_y (missile f) + 1 = height - 1 \<Longrightarrow>
   m_c (missile (missile_tick height f)) = CHR ''*'' \<and>
   layout (game (missile_tick height f)) = layout (game f)"
  by (auto simp: missile_tick_def Let_def)

lemma missile_tick_below_floor:
  "0 \<le> m_x (missile f) \<Longrightarrow> m_x (missile f) < game_size (game f) \<Longrightarrow>
   layout (game f) ! nat (m_x (missile f)) = h \<Longrightarrow> h < 2 \<Longrightarrow>
   m_y (missile f) + 1 = height - h + 1 \<Longrightarrow>
   layout (game (missile_tick height f)) ! nat (m_x (missile f)) = h - 1"
  by (auto simp: missile_tick_def Let_def game_size_def)

lemma layout_token_tallest: "below_tallest g \<Longrightarrow> below_tallest (layout_token g tok)"
  by (auto simp: below_tallest_def layout_token_def list_all_iff split: option.split)

lemma layout_tokens_tallest: "below_tallest g \<Longrightarrow> below_tallest (foldl layout_token g toks)"
  by (induction toks arbitrary: g) (simp_all add: layout_token_tallest)

lemma createGame_loop_tallest:
  "below_tallest g \<Longrightarrow> createGame_loop line g lines = Inr (line', g') \<Longrightarrow> below_tallest g'"
proof (induction line g lines rule: createGame_loop.induct)
  case (1 line g)
  then show ?case by simp
next
  case (2 line g raw rest)
  show ?case
  proof (cases "raw = []")
    case True
    with "2.prems" show ?thesis by simp
  next
    case ne: False
    show ?thesis
    proof (cases "hd raw = CHR ''#''")
      case True
      with ne "2.prems" "2.IH"(1) show ?thesis by simp
    next
      case nc: False
      consider "line = 0" | "line = 1" | "line = 2" | "3 \<le> line" by linarith
      then show ?thesis
      proof cases
        case 1
        with ne nc "2.prems" "2.IH"(2) [OF ne nc refl 1] show ?thesis
          by (simp add: below_tallest_def)
      next
        case 2
        with ne nc "2.prems" "2.IH"(3) [OF ne nc refl _ 2] show ?thesis
          by (simp add: below_tallest_def)
      next
        case 3
        with ne nc "2.prems" "2.IH"(4) [OF ne nc refl] show ?thesis
          by (auto simp: below_tallest_def split: sum.splits)
      next
        case 4
        then have l: "line \<noteq> 0" "line \<noteq> 1" "line \<noteq> 2" by simp_all
        from ne nc l "2.prems" "2.IH"(5) [OF ne nc refl l] show ?thesis
          by (simp add: layout_tokens_tallest)
      qed
    qed
  qed
qed

lemma createGame_tallest:
  "createGame d0 a0 filename file = Inr g \<Longrightarrow> below_tallest g"
proof -
  assume c: "createGame d0 a0 filename file = Inr g"
  let ?g0 = "\<lparr>defender = d0\<lparr>d_name := None\<rparr>, attacker = a0\<lparr>a_name := None\<rparr>,
                   layout = [], tallest = 0, gameOver = False\<rparr>"
  have i: "below_tallest ?g0" by (simp add: below_tallest_def)
  from c obtain lines line where "createGame_loop 0 ?g0 lines = Inr (line, g)"
    by (auto simp: createGame_def split: option.splits sum.splits if_splits)
  with i show ?thesis by (rule createGame_loop_tallest)
qed

lemma missile_tick_tallest:
  "below_tallest (game f) \<Longrightarrow> below_tallest (game (missile_tick height f))"
proof -
  assume b: "below_tallest (game f)"
  have "\<forall>i<length (layout (game f)).
      (layout (game f))[nat (m_x (missile f)) := layout (game f) ! nat (m_x (missile f)) - 1] ! i
        \<le> tallest (game f)"
  proof (intro allI impI)
    fix i assume i: "i < length (layout (game f))"
    have "(layout (game f))[nat (m_x (missile f)) := layout (game f) ! nat (m_x (missile f)) - 1] ! i
        \<le> layout (game f) ! i" using i by (rule dec_nth)
    also have "\<dots> \<le> tallest (game f)" using b i by (simp add: below_tallest_def list_all_length)
    finally show "(layout (game f))[nat (m_x (missile f)) :=
        layout (game f) ! nat (m_x (missile f)) - 1] ! i \<le> tallest (game f)" .
  qed
  with b missile_tick_game [of height f] show ?thesis
    by (auto simp: below_tallest_def list_all_length)
qed

text \<open>
  C4 asks for \<open>0 \<le> layout[i]\<close> in every reachable state, for every layout of
  non-negative heights. For the layout line \<open>1\<close> in a terminal of 7 rows and 50 columns
  the first missile falling in column 0 lowers the column from 1 to 0 and the second one
  from 0 to \<open>-1\<close>.
\<close>

theorem layout_below_zero:
  "layout (game (snd (launchMissile quiet 7 low_flight))) = [0] \<and>
   layout (game (snd (launchMissile quiet 7
      (missile_at 0 (snd (launchMissile quiet 7 low_flight)))))) = [- 1]"
  by code_simp

end
